theory Spec2Isabelle
  imports Main "HOL-Library.Word"
begin

chapter \<open>The enrichment pipeline of the CloudWatch OTLP tag enricher (main.go)\<close>

text \<open>
  A shallow embedding of \<^verbatim>\<open>main.go\<close>: the static-label parser, the label builder, the
  statistic expander, the file-backed resource cache, the wire codec and the enrichment
  orchestrator. Go values are modelled as follows: a \<^verbatim>\<open>string\<close> is a \<^typ>\<open>string\<close>
  (a list of bytes), a \<^verbatim>\<open>[]T\<close> is a list, a \<^verbatim>\<open>map[string]T\<close> is a partial function,
  a pair \<^verbatim>\<open>(v, err)\<close> is a pair with an \<open>error option\<close> or a sum, and a panic is an
  error value of its own. Functions of other packages (encoding/json, promutil, the
  tagging client, the associator, protobuf) are parameters of the functions that call them.
\<close>

section \<open>Definitions\<close>

subsection \<open>Errors\<close>

datatype error =
    EOF \<comment> \<open>\<^verbatim>\<open>io.EOF\<close>\<close>
  | ErrUnexpectedEOF \<comment> \<open>\<^verbatim>\<open>io.ErrUnexpectedEOF\<close>\<close>
  | ErrInvalidVarint \<comment> \<open>\<^verbatim>\<open>pbutil.errInvalidVarint\<close>\<close>
  | ErrExpectedToFindResources \<comment> \<open>\<^verbatim>\<open>tagging.ErrExpectedToFindResources\<close>\<close>
  | ErrEmptyLabel \<comment> \<open>"STATIC_LABELS contains empty string"\<close>
  | ErrNotKeyValue \<comment> \<open>"STATIC_LABELS contains string that is not a key=value pair"\<close>
  | Panic string \<comment> \<open>a run-time panic (index out of range, nil dereference)\<close>
  | LibError string \<comment> \<open>any other error value returned by a library or the system\<close>

subsection \<open>Strings\<close>

text \<open>\<^verbatim>\<open>strings.Contains(s, sep)\<close> for a separator of one byte.\<close>

definition strings_Contains :: "string \<Rightarrow> char \<Rightarrow> bool" where
  "strings_Contains s sep = (sep \<in> set s)"

text \<open>\<^verbatim>\<open>strings.Split(s, sep)\<close> for a separator of one byte: all fields, in order.\<close>

fun splitFrom :: "char \<Rightarrow> string \<Rightarrow> string \<Rightarrow> string list" where
  "splitFrom sep cur [] = [cur]"
| "splitFrom sep cur (c # cs) =
     (if c = sep then cur # splitFrom sep [] cs else splitFrom sep (cur @ [c]) cs)"

definition strings_Split :: "string \<Rightarrow> char \<Rightarrow> string list" where
  "strings_Split s sep = splitFrom sep [] s"

text \<open>\<^verbatim>\<open>strings.SplitN(s, sep, 2)\<close>: at most two fields, the second the unsplit remainder.\<close>

definition strings_SplitN2 :: "string \<Rightarrow> char \<Rightarrow> string list" where
  "strings_SplitN2 s sep =
     (if sep \<in> set s
      then [takeWhile (\<lambda>c. c \<noteq> sep) s, tl (dropWhile (\<lambda>c. c \<noteq> sep) s)]
      else [s])"

text \<open>Indexing a slice: out of range is a run-time panic.\<close>

definition index :: "'a list \<Rightarrow> nat \<Rightarrow> error + 'a" where
  "index xs i = (if i < length xs then Inr (xs ! i) else Inl (Panic ''index out of range''))"

subsection \<open>parseStaticLabels\<close>

text \<open>
  The loop over \<^verbatim>\<open>rawLabels\<close>. The function returns the map built so far together with
  the error, as the source does (\<^verbatim>\<open>return staticLabels, errors.New(...)\<close>).
\<close>

fun parseLabelEntries ::
  "string list \<Rightarrow> (string \<rightharpoonup> string) \<Rightarrow> (string \<rightharpoonup> string) \<times> error option" where
  "parseLabelEntries [] staticLabels = (staticLabels, None)"
| "parseLabelEntries (label # rest) staticLabels =
     (if label = [] then (staticLabels, Some ErrEmptyLabel)
      else if \<not> strings_Contains label (CHR ''='') then (staticLabels, Some ErrNotKeyValue)
      else (case index (strings_Split label (CHR ''='')) 0 of
              Inl e \<Rightarrow> (staticLabels, Some e)
            | Inr key \<Rightarrow>
               (case index (strings_SplitN2 label (CHR ''='')) 1 of
                  Inl e \<Rightarrow> (staticLabels, Some e)
                | Inr val \<Rightarrow> parseLabelEntries rest (staticLabels(key \<mapsto> val)))))"

text \<open>
  \<^verbatim>\<open>json.Unmarshal([]byte(env), &rawLabels)\<close> is the parameter \<open>unmarshal\<close>: the decoded
  slice of strings, or the decoder's error.
\<close>

definition parseStaticLabels ::
  "(string \<Rightarrow> error + string list) \<Rightarrow> string \<Rightarrow> (string \<rightharpoonup> string) \<times> error option" where
  "parseStaticLabels unmarshal staticLabelsEnv =
     (if staticLabelsEnv = [] then (Map.empty, None)
      else (case unmarshal staticLabelsEnv of
              Inl err \<Rightarrow> (Map.empty, Some err)
            | Inr rawLabels \<Rightarrow> parseLabelEntries rawLabels Map.empty))"

text \<open>
  A decoder for the JSON texts of the configuration examples: an array of string
  literals, written without white space and without escape sequences. On these texts it
  returns what encoding/json returns; every other text is rejected, which is coarser
  than encoding/json, so the decoder is used only to run \<open>parseStaticLabels\<close> on such
  examples.
\<close>

datatype jstate = JStart | JOpen | JInString | JAfterString | JAfterComma | JDone

fun jsonRun :: "jstate \<Rightarrow> string list \<Rightarrow> string \<Rightarrow> string \<Rightarrow> string list option" where
  "jsonRun st acc cur [] = (if st = JDone then Some acc else None)"
| "jsonRun st acc cur (c # cs) =
     (case st of
        JStart \<Rightarrow> if c = CHR ''['' then jsonRun JOpen acc cur cs else None
      | JOpen \<Rightarrow>
          if c = CHR 0x22 then jsonRun JInString acc [] cs
          else if c = CHR '']'' then jsonRun JDone acc cur cs else None
      | JInString \<Rightarrow>
          if c = CHR 0x22 then jsonRun JAfterString (acc @ [cur]) [] cs
          else if c = CHR 0x5C \<or> of_char c < (0x20 :: nat) then None
          else jsonRun JInString acc (cur @ [c]) cs
      | JAfterString \<Rightarrow>
          if c = CHR '','' then jsonRun JAfterComma acc cur cs
          else if c = CHR '']'' then jsonRun JDone acc cur cs else None
      | JAfterComma \<Rightarrow> if c = CHR 0x22 then jsonRun JInString acc [] cs else None
      | JDone \<Rightarrow> None)"

definition jsonStringArray :: "string \<Rightarrow> error + string list" where
  "jsonStringArray s =
     (case jsonRun JStart [] [] s of
        None \<Rightarrow> Inl (LibError ''json: cannot unmarshal'')
      | Some xs \<Rightarrow> Inr xs)"

text \<open>The key and the value the loop stores for an accepted entry.\<close>

definition labelKey :: "string \<Rightarrow> string" where
  "labelKey label = takeWhile (\<lambda>c. c \<noteq> CHR ''='') label"

definition labelValue :: "string \<Rightarrow> string" where
  "labelValue label = tl (dropWhile (\<lambda>c. c \<noteq> CHR ''='') label)"

definition putLabel :: "(string \<rightharpoonup> string) \<Rightarrow> string \<Rightarrow> (string \<rightharpoonup> string)" where
  "putLabel m label = m(labelKey label \<mapsto> labelValue label)"

definition entryOK :: "string \<Rightarrow> bool" where
  "entryOK label = (label \<noteq> [] \<and> CHR ''='' \<in> set label)"

subsection \<open>OTLP attributes\<close>

text \<open>
  \<^verbatim>\<open>commonpb.AnyValue\<close> and \<^verbatim>\<open>commonpb.KeyValue\<close>. Attribute lists are slices of pointers
  and the source tests the pointers for nil, so an element is an \<open>option\<close>; the value
  of a \<open>KeyValue\<close> is a pointer as well. Of the kinds of \<open>AnyValue\<close> only strings and
  key/value lists are read by the program; the others are \<open>OtherValue\<close>.
\<close>

datatype AnyValue = StringValue string | KvlistValue "KeyValue option list" | OtherValue
  and KeyValue = KeyValue string "AnyValue option"

fun GetKey :: "KeyValue \<Rightarrow> string" where
  "GetKey (KeyValue k v) = k"

fun GetValue :: "KeyValue \<Rightarrow> AnyValue option" where
  "GetValue (KeyValue k v) = v"

fun GetStringValue :: "AnyValue \<Rightarrow> string" where
  "GetStringValue (StringValue s) = s"
| "GetStringValue (KvlistValue kvs) = []"
| "GetStringValue OtherValue = []"

text \<open>The closure \<^verbatim>\<open>strVal\<close> and the literal \<^verbatim>\<open>&commonpb.KeyValue{Key: k, Value: strVal(v)}\<close>.\<close>

definition strVal :: "string \<Rightarrow> AnyValue option" where
  "strVal s = Some (StringValue s)"

definition stringKV :: "string \<Rightarrow> string \<Rightarrow> KeyValue option" where
  "stringKV k v = Some (KeyValue k (strVal v))"

subsection \<open>The metric descriptor and the tagged resource (package model of YACE)\<close>

record Dimension =
  dimName :: string
  dimValue :: string

record Tag =
  tagKey :: string
  tagValue :: string

record cwMetric =
  Namespace :: string
  MetricName :: string
  Dimensions :: "Dimension list"

record TaggedResource =
  ARN :: string
  resNamespace :: string
  resRegion :: string
  Tags :: "Tag list"

subsection \<open>buildYACELabelsKeyValue\<close>

text \<open>
  The three loops of the label builder, each appending to \<^verbatim>\<open>out\<close>. The parameter
  \<open>PromStringTag\<close> is \<^verbatim>\<open>promutil.PromStringTag\<close>: it returns whether the name is a valid
  label name, and the normalised name.
\<close>

type_synonym promStringTag = "string \<Rightarrow> bool \<Rightarrow> bool \<times> string"

fun addDimensions ::
  "promStringTag \<Rightarrow> bool \<Rightarrow> KeyValue option list \<Rightarrow> Dimension list \<Rightarrow> KeyValue option list" where
  "addDimensions PromStringTag labelsSnakeCase out [] = out"
| "addDimensions PromStringTag labelsSnakeCase out (dim # rest) =
     (case PromStringTag (dimName dim) labelsSnakeCase of
        (ok, promTag) \<Rightarrow>
          if \<not> ok then addDimensions PromStringTag labelsSnakeCase out rest
          else addDimensions PromStringTag labelsSnakeCase
                 (out @ [stringKV (''dimension_'' @ promTag) (dimValue dim)]) rest)"

fun addTags ::
  "promStringTag \<Rightarrow> bool \<Rightarrow> KeyValue option list \<Rightarrow> Tag list \<Rightarrow> KeyValue option list" where
  "addTags PromStringTag labelsSnakeCase out [] = out"
| "addTags PromStringTag labelsSnakeCase out (tag # rest) =
     (case PromStringTag (tagKey tag) labelsSnakeCase of
        (ok, promTag) \<Rightarrow>
          if \<not> ok then addTags PromStringTag labelsSnakeCase out rest
          else addTags PromStringTag labelsSnakeCase
                 (out @ [stringKV (''tag_'' @ promTag) (tagValue tag)]) rest)"

text \<open>
  \<^verbatim>\<open>for k, v := range staticLabels\<close>: a range over a Go map visits every entry once, in
  an order the run time chooses. The model receives the entries of the map in the order
  of that visit.
\<close>

fun addStaticLabels ::
  "promStringTag \<Rightarrow> bool \<Rightarrow> KeyValue option list \<Rightarrow> (string \<times> string) list \<Rightarrow>
   KeyValue option list" where
  "addStaticLabels PromStringTag labelsSnakeCase out [] = out"
| "addStaticLabels PromStringTag labelsSnakeCase out ((k, v) # rest) =
     (case PromStringTag k labelsSnakeCase of
        (ok, promTag) \<Rightarrow>
          if \<not> ok then addStaticLabels PromStringTag labelsSnakeCase out rest
          else addStaticLabels PromStringTag labelsSnakeCase
                 (out @ [stringKV (''custom_tag_'' @ promTag) v]) rest)"

text \<open>
  The parameter \<open>MetricTags\<close> is the method \<^verbatim>\<open>TaggedResource.MetricTags\<close> of YACE; the
  pointer \<^verbatim>\<open>r\<close> is an \<open>option\<close>.
\<close>

definition buildYACELabelsKeyValue ::
  "promStringTag \<Rightarrow> (TaggedResource \<Rightarrow> string list \<Rightarrow> Tag list) \<Rightarrow>
   cwMetric \<Rightarrow> TaggedResource option \<Rightarrow> bool \<Rightarrow> (string \<times> string) list \<Rightarrow> bool \<Rightarrow> bool \<Rightarrow>
   string list \<Rightarrow> string \<Rightarrow> string \<Rightarrow> KeyValue option list" where
  "buildYACELabelsKeyValue PromStringTag MetricTags cwm r skip staticLabels defaultLabels
     labelsSnakeCase exportedTags region accountID =
     (let out0 = [];
          out1 = (if region \<noteq> [] then out0 @ [stringKV ''region'' region] else out0);
          out2 = (if accountID \<noteq> [] then out1 @ [stringKV ''account_id'' accountID] else out1);
          out3 = (if Namespace cwm \<noteq> []
                  then out2 @ [stringKV ''namespace'' (Namespace cwm)] else out2);
          nameVal = (case r of
                       None \<Rightarrow> ''global''
                     | Some res \<Rightarrow> if \<not> skip then ARN res else ''global'');
          out4 = out3 @ [stringKV ''name'' nameVal];
          out5 = addDimensions PromStringTag labelsSnakeCase out4 (Dimensions cwm);
          out6 = (case r of
                    None \<Rightarrow> out5
                  | Some res \<Rightarrow>
                      if \<not> skip
                      then (let tagsToExport =
                                  (if length exportedTags > 0 then MetricTags res exportedTags
                                   else Tags res)
                            in addTags PromStringTag labelsSnakeCase out5 tagsToExport)
                      else out5);
          out7 = (if defaultLabels \<or> (r \<noteq> None \<and> \<not> skip)
                  then addStaticLabels PromStringTag labelsSnakeCase out6 staticLabels
                  else out6)
      in out7)"

text \<open>
  Instances of the two parameters, for running the builder on examples. \<open>plainStringTag\<close>
  leaves the name as it is and accepts it when it is a Prometheus label name
  (\<^verbatim>\<open>[a-zA-Z_][a-zA-Z0-9_]*\<close>); \<open>metricTagsOf\<close> returns, as YACE's \<^verbatim>\<open>MetricTags\<close>, one tag
  per exported key, with the resource's value for that key or the empty string.
\<close>

definition isLetter :: "char \<Rightarrow> bool" where
  "isLetter c = ((of_char c :: nat) \<in> {65..90} \<union> {97..122} \<or> c = CHR ''_'')"

definition isDigit :: "char \<Rightarrow> bool" where
  "isDigit c = ((of_char c :: nat) \<in> {48..57})"

definition plainStringTag :: promStringTag where
  "plainStringTag text snake =
     (case text of
        [] \<Rightarrow> (False, text)
      | c # cs \<Rightarrow> (isLetter c \<and> list_all (\<lambda>x. isLetter x \<or> isDigit x) cs, text))"

fun tagValueFor :: "string \<Rightarrow> Tag list \<Rightarrow> string" where
  "tagValueFor k [] = []"
| "tagValueFor k (t # ts) = (if tagKey t = k then tagValue t else tagValueFor k ts)"

definition metricTagsOf :: "TaggedResource \<Rightarrow> string list \<Rightarrow> Tag list" where
  "metricTagsOf r tagsOnMetrics =
     map (\<lambda>k. \<lparr>tagKey = k, tagValue = tagValueFor k (Tags r)\<rparr>) tagsOnMetrics"



definition keyOf :: "KeyValue option \<Rightarrow> string" where
  "keyOf a = (case a of None \<Rightarrow> [] | Some kv \<Rightarrow> GetKey kv)"


subsection \<open>The world outside the program: files, clock, tagging client\<close>

text \<open>
  The cache files, the clock and the tagging client are outside the program. The
  world is passed through every function that touches them: it holds the files (content
  and modification time, in nanoseconds) and the trace of the interactions so far. The
  answers of the outside (the resources the client returns, the time the clock shows,
  the operations of the file system that fail, the JSON codec for resources) are
  functions of the environment \<open>cacheEnv\<close>; the client and the clock may answer
  differently as the trace grows.
\<close>

datatype fsOp = OpOpen | OpStat | OpReadAll | OpClose | OpCreate | OpWrite

datatype event =
    EvLookup string \<comment> \<open>a call of \<open>getOrCacheResources\<close> for a namespace\<close>
  | EvFetch string string \<comment> \<open>a call of \<^verbatim>\<open>client.GetResources\<close> for a namespace and a region\<close>
  | EvFile fsOp string \<comment> \<open>an operation on the file of a path\<close>

record cachedFile =
  content :: string
  modTime :: int

record world =
  files :: "string \<rightharpoonup> cachedFile"
  trace :: "event list"

record cacheEnv =
  GetResources :: "event list \<Rightarrow> string \<Rightarrow> string \<Rightarrow> TaggedResource list \<times> error option"
  timeNow :: "event list \<Rightarrow> int"
  fault :: "fsOp \<Rightarrow> string \<Rightarrow> error option"
  jsonMarshal :: "TaggedResource list \<Rightarrow> error + string"
  jsonUnmarshal :: "string \<Rightarrow> error + TaggedResource list"

definition emit :: "event \<Rightarrow> world \<Rightarrow> world" where
  "emit e w = w\<lparr>trace := trace w @ [e]\<rparr>"

subsection \<open>retrieveResources and getOrCacheResources\<close>

text \<open>
  \<^verbatim>\<open>retrieveResources\<close>: the region is a pointer that the call dereferences; the error
  \<^verbatim>\<open>ErrExpectedToFindResources\<close> is turned into success with the resources the client
  returned.
\<close>

definition retrieveResources ::
  "cacheEnv \<Rightarrow> string \<Rightarrow> string option \<Rightarrow> world \<Rightarrow> (error + TaggedResource list) \<times> world" where
  "retrieveResources env namespace region w =
     (case region of
        None \<Rightarrow> (Inl (Panic ''nil pointer dereference''), w)
      | Some reg \<Rightarrow>
          (case GetResources env (trace w) namespace reg of
             (resources, err) \<Rightarrow>
               (case err of
                  None \<Rightarrow> (Inr resources, emit (EvFetch namespace reg) w)
                | Some e \<Rightarrow>
                    if e \<noteq> ErrExpectedToFindResources
                    then (Inl e, emit (EvFetch namespace reg) w)
                    else (Inr resources, emit (EvFetch namespace reg) w))))"

definition cacheFile :: string where
  "cacheFile = ''cache''"

text \<open>\<^verbatim>\<open>strings.ReplaceAll(s, old, new)\<close> for \<open>old\<close> and \<open>new\<close> of one byte each.\<close>

definition strings_ReplaceAll :: "string \<Rightarrow> char \<Rightarrow> char \<Rightarrow> string" where
  "strings_ReplaceAll s old new = map (\<lambda>c. if c = old then new else c) s"

definition cachePath :: "string \<Rightarrow> string \<Rightarrow> string" where
  "cachePath fileCachePath namespace =
     fileCachePath @ ''/'' @ cacheFile @ ''-'' @ strings_ReplaceAll namespace (CHR ''/'') (CHR ''-'')"

text \<open>
  The branch that refreshes the cache: fetch, marshal, create the file (which truncates
  it), write. The deferred \<^verbatim>\<open>f.Close()\<close> drops its error.
\<close>

definition refreshCache ::
  "cacheEnv \<Rightarrow> string \<Rightarrow> string \<Rightarrow> string option \<Rightarrow> world \<Rightarrow>
   (error + TaggedResource list) \<times> world" where
  "refreshCache env filePath namespace region w =
     (case retrieveResources env namespace region w of
        (Inl err, w1) \<Rightarrow> (Inl err, w1)
      | (Inr resources, w1) \<Rightarrow>
          (case jsonMarshal env resources of
             Inl err \<Rightarrow> (Inl err, w1)
           | Inr b \<Rightarrow>
               (let w2 = emit (EvFile OpCreate filePath) w1 in
                case fault env OpCreate filePath of
                  Some err \<Rightarrow> (Inl err, w2)
                | None \<Rightarrow>
                    (let w3 = w2\<lparr>files := (files w2)
                                 (filePath \<mapsto> \<lparr>content = [], modTime = timeNow env (trace w2)\<rparr>)\<rparr>;
                         w4 = emit (EvFile OpWrite filePath) w3 in
                     case fault env OpWrite filePath of
                       Some err \<Rightarrow> (Inl err, emit (EvFile OpClose filePath) w4)
                     | None \<Rightarrow>
                         (Inr resources,
                          emit (EvFile OpClose filePath)
                            (w4\<lparr>files := (files w4)
                                 (filePath \<mapsto> \<lparr>content = b, modTime = timeNow env (trace w4)\<rparr>)\<rparr>))))))"

text \<open>The branch that loads the cache file: read all, close, unmarshal.\<close>

definition loadCache ::
  "cacheEnv \<Rightarrow> string \<Rightarrow> cachedFile \<Rightarrow> world \<Rightarrow> (error + TaggedResource list) \<times> world" where
  "loadCache env filePath f w =
     (let w1 = emit (EvFile OpReadAll filePath) w in
      case fault env OpReadAll filePath of
        Some err \<Rightarrow> (Inl err, w1)
      | None \<Rightarrow>
          (let b = content f; w2 = emit (EvFile OpClose filePath) w1 in
           case fault env OpClose filePath of
             Some err \<Rightarrow> (Inl err, w2)
           | None \<Rightarrow>
               (case jsonUnmarshal env b of
                  Inl err \<Rightarrow> (Inl err, w2)
                | Inr resources \<Rightarrow> (Inr resources, w2))))"

text \<open>
  \<^verbatim>\<open>getOrCacheResources\<close>. \<^verbatim>\<open>os.Open\<close> fails with the fault of the environment, or with
  a not-exist error when the path has no file. The entry is expired when
  \<^verbatim>\<open>fs.ModTime().Add(cacheExpiration).Before(time.Now())\<close>; times and durations are
  integers (nanoseconds), without the bounds of \<^verbatim>\<open>time.Time\<close>.
\<close>

definition getOrCacheResources ::
  "cacheEnv \<Rightarrow> string \<Rightarrow> string \<Rightarrow> string option \<Rightarrow> int \<Rightarrow> bool \<Rightarrow> world \<Rightarrow>
   (error + TaggedResource list) \<times> world" where
  "getOrCacheResources env fileCachePath namespace region cacheExpiration cacheEnabled w0 =
     (let w = emit (EvLookup namespace) w0 in
      if \<not> cacheEnabled then retrieveResources env namespace region w
      else
        (let filePath = cachePath fileCachePath namespace;
             w1 = emit (EvFile OpOpen filePath) w in
         case fault env OpOpen filePath of
           Some err \<Rightarrow> (Inl err, w1)
         | None \<Rightarrow>
             (case files w1 filePath of
                None \<Rightarrow> refreshCache env filePath namespace region w1
              | Some f \<Rightarrow>
                  (let w2 = emit (EvFile OpStat filePath) w1 in
                   case fault env OpStat filePath of
                     Some err \<Rightarrow> (Inl err, w2)
                   | None \<Rightarrow>
                       (let isExpired = (modTime f + cacheExpiration < timeNow env (trace w2)) in
                        if isExpired then refreshCache env filePath namespace region w2
                        else loadCache env filePath f w2)))))"

text \<open>
  Instances of the environment for running the cache on examples: the resources are
  stored as a JSON array of their ARNs (\<open>arnCodec\<close>), the client returns one fixed
  resource, the clock shows a fixed time and no operation fails.
\<close>

definition arnResource :: "string \<Rightarrow> TaggedResource" where
  "arnResource a = \<lparr>ARN = a, resNamespace = [], resRegion = [], Tags = []\<rparr>"

definition arnUnmarshal :: "string \<Rightarrow> error + TaggedResource list" where
  "arnUnmarshal s = (case jsonStringArray s of Inl e \<Rightarrow> Inl e | Inr xs \<Rightarrow> Inr (map arnResource xs))"

fun arnList :: "TaggedResource list \<Rightarrow> string" where
  "arnList [] = []"
| "arnList [r] = [CHR 0x22] @ ARN r @ [CHR 0x22]"
| "arnList (r # rs) = [CHR 0x22] @ ARN r @ [CHR 0x22] @ '','' @ arnList rs"

definition arnMarshal :: "TaggedResource list \<Rightarrow> error + string" where
  "arnMarshal rs = Inr (''['' @ arnList rs @ '']'')"

text \<open>What a run added to the trace, and the namespaces it fetched.\<close>

definition newEvents :: "world \<Rightarrow> world \<Rightarrow> event list" where
  "newEvents w w' = drop (length (trace w)) (trace w')"

fun fetches :: "event list \<Rightarrow> string list" where
  "fetches [] = []"
| "fetches (EvFetch ns reg # es) = ns # fetches es"
| "fetches (e # es) = fetches es"

fun lookups :: "event list \<Rightarrow> string list" where
  "lookups [] = []"
| "lookups (EvLookup ns # es) = ns # lookups es"
| "lookups (e # es) = lookups es"

text \<open>The time the clock shows when \<open>getOrCacheResources\<close> reads it, after open and stat.\<close>

definition accessTime :: "cacheEnv \<Rightarrow> world \<Rightarrow> string \<Rightarrow> string \<Rightarrow> int" where
  "accessTime env w namespace filePath =
     timeNow env (trace w @ [EvLookup namespace, EvFile OpOpen filePath, EvFile OpStat filePath])"

definition fixedEnv :: "int \<Rightarrow> cacheEnv" where
  "fixedEnv t =
     \<lparr>GetResources = (\<lambda>tr ns reg. ([arnResource ''arn:fresh''], None)),
      timeNow = (\<lambda>tr. t),
      fault = (\<lambda>op p. None),
      jsonMarshal = arnMarshal,
      jsonUnmarshal = arnUnmarshal\<rparr>"

text \<open>A world with one persisted entry for the namespace \<open>AWS/EC2\<close>, written at time 100.\<close>

definition persistedWorld :: "string \<Rightarrow> world" where
  "persistedWorld bytes =
     \<lparr>files = [''/tmp/cache-AWS-EC2'' \<mapsto> \<lparr>content = bytes, modTime = 100\<rparr>], trace = []\<rparr>"

subsection \<open>The wire codec\<close>

type_synonym byte = "8 word"

definition MaxVarintLen32 :: nat where "MaxVarintLen32 = 5"

definition MaxVarintLen64 :: nat where "MaxVarintLen64 = 10"

text \<open>
  \<^verbatim>\<open>binary.PutUvarint\<close>: seven bits per byte, least significant first, the top bit set on
  every byte but the last. \<^verbatim>\<open>byte(x) | 0x80\<close> is written \<open>x mod 128 + 128\<close> and
  \<^verbatim>\<open>x >>= 7\<close> is written \<open>x div 128\<close>.
\<close>

fun PutUvarint :: "nat \<Rightarrow> byte list" where
  "PutUvarint x =
     (if x \<ge> 128 then of_nat (x mod 128 + 128) # PutUvarint (x div 128) else [of_nat x])"

declare PutUvarint.simps [simp del]

text \<open>
  \<^verbatim>\<open>binary.Uvarint\<close>: the loop over the bytes with the accumulator \<open>x\<close>, the shift \<open>s\<close> and
  the index \<open>i\<close>. The bits of \<open>x\<close> lie below \<open>s\<close>, so \<^verbatim>\<open>x | uint64(b)<<s\<close> is written
  as the sum \<open>x + b * 2 ^ s\<close>, and \<^verbatim>\<open>b & 0x7f\<close> as \<open>b mod 128\<close>. The result is the value
  and the number of bytes read: 0 when the buffer ends inside the number, negative on
  overflow.
\<close>

fun uvarintLoop :: "nat \<Rightarrow> nat \<Rightarrow> nat \<Rightarrow> byte list \<Rightarrow> nat \<times> int" where
  "uvarintLoop x s i [] = (0, 0)"
| "uvarintLoop x s i (b # bs) =
     (if i = MaxVarintLen64 then (0, - (int i + 1))
      else if unat b < 128
           then (if i = MaxVarintLen64 - 1 \<and> unat b > 1 then (0, - (int i + 1))
                 else (x + unat b * 2 ^ s, int i + 1))
           else uvarintLoop (x + (unat b mod 128) * 2 ^ s) (s + 7) (i + 1) bs)"

definition Uvarint :: "byte list \<Rightarrow> nat \<times> int" where
  "Uvarint buf = uvarintLoop 0 0 0 buf"

text \<open>
  \<^verbatim>\<open>pbutil.WriteDelimited\<close> on a \<^verbatim>\<open>bytes.Buffer\<close>: the message is marshalled, its length
  is written as a varint into an array of \<open>MaxVarintLen32\<close> bytes (a longer varint
  panics with an index out of range), then the header and the message are appended to
  the buffer. \<open>marshal\<close> is \<^verbatim>\<open>proto.Marshal\<close>.
\<close>

definition encodeLength :: "nat \<Rightarrow> error + byte list" where
  "encodeLength n =
     (if length (PutUvarint n) > MaxVarintLen32 then Inl (Panic ''index out of range'')
      else Inr (PutUvarint n))"

definition WriteDelimited :: "('m \<Rightarrow> error + byte list) \<Rightarrow> byte list \<Rightarrow> 'm \<Rightarrow> error + byte list" where
  "WriteDelimited marshal w m =
     (case marshal m of
        Inl err \<Rightarrow> Inl err
      | Inr buffer \<Rightarrow>
          (case encodeLength (length buffer) of
             Inl err \<Rightarrow> Inl err
           | Inr header \<Rightarrow> Inr (w @ header @ buffer)))"

fun writeRequests :: "('m \<Rightarrow> error + byte list) \<Rightarrow> byte list \<Rightarrow> 'm list \<Rightarrow> error + byte list" where
  "writeRequests marshal b [] = Inr b"
| "writeRequests marshal b (r # reqs) =
     (case WriteDelimited marshal b r of
        Inl err \<Rightarrow> Inl err
      | Inr b' \<Rightarrow> writeRequests marshal b' reqs)"

definition requestsIntoRawData :: "('m \<Rightarrow> error + byte list) \<Rightarrow> 'm list \<Rightarrow> error + byte list" where
  "requestsIntoRawData marshal reqs = writeRequests marshal [] reqs"

text \<open>
  \<^verbatim>\<open>pbutil.ReadDelimited\<close> on a \<^verbatim>\<open>bytes.Buffer\<close>. The header is read byte by byte, each
  time presenting all the bytes read so far to \<open>Uvarint\<close>, until a varint is decoded;
  reading from the exhausted buffer gives \<open>EOF\<close>, and a header of \<open>MaxVarintLen32\<close> bytes
  without a varint gives \<open>ErrInvalidVarint\<close>.
\<close>

fun readHeader :: "byte list \<Rightarrow> byte list \<Rightarrow> error + nat \<times> byte list" where
  "readHeader headerBuf [] =
     (if length headerBuf \<ge> MaxVarintLen32 then Inl ErrInvalidVarint else Inl EOF)"
| "readHeader headerBuf (b # r) =
     (if length headerBuf \<ge> MaxVarintLen32 then Inl ErrInvalidVarint
      else (case Uvarint (headerBuf @ [b]) of
              (messageLength, varIntBytes) \<Rightarrow>
                if varIntBytes = 0 then readHeader (headerBuf @ [b]) r
                else Inr (messageLength, r)))"

text \<open>
  \<^verbatim>\<open>io.ReadFull\<close> on a \<^verbatim>\<open>bytes.Buffer\<close>: all the bytes asked for, or \<open>EOF\<close> when none was
  there, or \<open>ErrUnexpectedEOF\<close> when some but not all were.
\<close>

definition ReadFull :: "byte list \<Rightarrow> nat \<Rightarrow> (error + byte list) \<times> byte list" where
  "ReadFull r n =
     (if n \<le> length r then (Inr (take n r), drop n r)
      else if r = [] then (Inl EOF, [])
      else (Inl ErrUnexpectedEOF, []))"

datatype 'm readResult = ReadOK 'm "byte list" | ReadErr error

definition ReadDelimited :: "(byte list \<Rightarrow> error + 'm) \<Rightarrow> byte list \<Rightarrow> 'm readResult" where
  "ReadDelimited unmarshal r =
     (case readHeader [] r of
        Inl err \<Rightarrow> ReadErr err
      | Inr (messageLength, r1) \<Rightarrow>
          (case ReadFull r1 messageLength of
             (Inl err, r2) \<Rightarrow> ReadErr err
           | (Inr messageBuf, r2) \<Rightarrow>
               (case unmarshal messageBuf of
                  Inl err \<Rightarrow> ReadErr err
                | Inr m \<Rightarrow> ReadOK m r2)))"

lemma readHeader_shorter:
  "readHeader headerBuf r = Inr (n, r') \<Longrightarrow> length r' < length r"
  by (induction headerBuf r rule: readHeader.induct) (auto split: if_splits prod.splits)

lemma ReadDelimited_shorter:
  "ReadDelimited unmarshal r = ReadOK m r' \<Longrightarrow> length r' < length r"
  by (auto simp: ReadDelimited_def ReadFull_def split: sum.splits prod.splits if_splits
      dest!: readHeader_shorter)

text \<open>
  \<open>rawDataIntoRequests\<close>: the loop reads messages until \<open>ReadDelimited\<close> fails; \<open>EOF\<close>
  ends the loop with the requests read so far, every other error is returned instead of
  them. \<open>unmarshal\<close> is \<^verbatim>\<open>proto.Unmarshal\<close> into a fresh request.
\<close>

function readRequests ::
  "(byte list \<Rightarrow> error + 'm) \<Rightarrow> 'm list \<Rightarrow> byte list \<Rightarrow> error + 'm list" where
  "readRequests unmarshal requests r =
     (case ReadDelimited unmarshal r of
        ReadErr err \<Rightarrow> if err = EOF then Inr requests else Inl err
      | ReadOK rm r' \<Rightarrow> readRequests unmarshal (requests @ [rm]) r')"
  by pat_completeness auto
termination
  by (relation "measure (\<lambda>(unmarshal, requests, r). length r)")
     (auto dest: ReadDelimited_shorter)

declare readRequests.simps [simp del]

definition rawDataIntoRequests :: "(byte list \<Rightarrow> error + 'm) \<Rightarrow> byte list \<Rightarrow> error + 'm list" where
  "rawDataIntoRequests unmarshal input = readRequests unmarshal [] input"

text \<open>
  The frame of a message body as the encoder writes it, a stream of frames, and the
  bytes that continue a varint.
\<close>

definition frame :: "byte list \<Rightarrow> byte list" where
  "frame body = PutUvarint (length body) @ body"

definition frames :: "byte list list \<Rightarrow> byte list" where
  "frames bodies = concat (map frame bodies)"

definition continues :: "byte \<Rightarrow> bool" where
  "continues b = (\<not> unat b < 128)"

text \<open>
  An instance of the protobuf codec for running the wire codec on examples: a message
  is its own serialisation, and the one-byte body \<open>0xFF\<close> (a tag cut short) is rejected.
\<close>

definition rawMarshal :: "byte list \<Rightarrow> error + byte list" where
  "rawMarshal m = Inr m"

definition rawUnmarshal :: "byte list \<Rightarrow> error + byte list" where
  "rawUnmarshal b =
     (if b = [0xFF] then Inl (LibError ''proto: cannot parse invalid wire-format data'')
      else Inr b)"

subsection \<open>float64\<close>

text \<open>
  A \<^verbatim>\<open>float64\<close> is its IEEE 754 binary64 bit pattern: one sign bit, eleven exponent
  bits, fifty-two fraction bits. \<open>classify\<close> reads the pattern: a NaN, an infinity, or
  the finite value \<open>(-1)^s * m * 2^x\<close>. Arithmetic is exact arithmetic on these values
  followed by rounding to the nearest representable value, ties to even
  (\<open>f64_round\<close>), which is what the processor does for \<^verbatim>\<open>*\<close>, \<^verbatim>\<open>/\<close> and the conversions
  from integers.
\<close>

type_synonym float64 = "64 word"

datatype fclass = NaN | Inf bool | Fin bool nat int

definition classify :: "float64 \<Rightarrow> fclass" where
  "classify w =
     (let s = (unat w \<ge> 2 ^ 63);
          e = (unat w div 2 ^ 52) mod 2048;
          f = unat w mod 2 ^ 52
      in if e = 2047 then (if f = 0 then Inf s else NaN)
         else if e = 0 then Fin s f (- 1074)
         else Fin s (2 ^ 52 + f) (int e - 1075))"

fun bitlen :: "nat \<Rightarrow> nat" where
  "bitlen n = (if n = 0 then 0 else Suc (bitlen (n div 2)))"

declare bitlen.simps [simp del]

text \<open>The quotient \<open>N / D\<close> rounded to the nearest integer, ties to the even one.\<close>

definition roundHalfEven :: "nat \<Rightarrow> nat \<Rightarrow> nat" where
  "roundHalfEven N D =
     (let q = N div D; r = N mod D
      in if 2 * r > D \<or> (2 * r = D \<and> odd q) then q + 1 else q)"

definition signBit :: "bool \<Rightarrow> nat" where
  "signBit s = (if s then 2 ^ 63 else 0)"

definition infBits :: nat where
  "infBits = 2047 * 2 ^ 52"

text \<open>
  The value \<open>(-1)^s * (num / den) * 2^x\<close> rounded to a \<^verbatim>\<open>float64\<close>. \<open>l\<close> is the position of
  the leading bit of the value, \<open>t\<close> the exponent of the unit in the last place (not
  below that of the subnormal numbers), \<open>q\<close> the value in these units, rounded; the
  pattern is the exponent field times \<open>2^52\<close> plus \<open>q\<close>, where a \<open>q\<close> of \<open>2^53\<close> carries
  into the exponent, and a pattern beyond the largest finite number is the infinity.
\<close>

definition f64_round :: "bool \<Rightarrow> nat \<Rightarrow> nat \<Rightarrow> int \<Rightarrow> float64" where
  "f64_round s num den x =
     (if num = 0 then of_nat (signBit s)
      else
        (let l = int (bitlen num) - int (bitlen den)
                 - (if num * 2 ^ bitlen den \<ge> den * 2 ^ bitlen num then 0 else 1) + x;
             t = max (l - 52) (- 1074);
             N = (if x \<ge> t then num * 2 ^ nat (x - t) else num);
             D = (if x \<ge> t then den else den * 2 ^ nat (t - x));
             q = roundHalfEven N D;
             bits = nat (t + 1074) * 2 ^ 52 + q
         in of_nat (signBit s + (if bits \<ge> infBits then infBits else bits))))"

definition f64_NaN :: float64 where
  "f64_NaN = 0x7FF8000000000000"

definition f64_Inf :: "bool \<Rightarrow> float64" where
  "f64_Inf s = of_nat (signBit s + infBits)"

text \<open>\<^verbatim>\<open>a == b\<close> on \<^verbatim>\<open>float64\<close>: a NaN equals nothing, the two zeros are equal.\<close>

definition f64_eq :: "float64 \<Rightarrow> float64 \<Rightarrow> bool" where
  "f64_eq a b =
     (case (classify a, classify b) of
        (Fin s m x, Fin s' m' x') \<Rightarrow> (m = 0 \<and> m' = 0) \<or> a = b
      | (Inf s, Inf s') \<Rightarrow> s = s'
      | _ \<Rightarrow> False)"

text \<open>\<^verbatim>\<open>a * b\<close>.\<close>

definition f64_mul :: "float64 \<Rightarrow> float64 \<Rightarrow> float64" where
  "f64_mul a b =
     (case (classify a, classify b) of
        (NaN, _) \<Rightarrow> f64_NaN
      | (_, NaN) \<Rightarrow> f64_NaN
      | (Inf s, Inf s') \<Rightarrow> f64_Inf (s \<noteq> s')
      | (Inf s, Fin s' m' x') \<Rightarrow> if m' = 0 then f64_NaN else f64_Inf (s \<noteq> s')
      | (Fin s m x, Inf s') \<Rightarrow> if m = 0 then f64_NaN else f64_Inf (s \<noteq> s')
      | (Fin s m x, Fin s' m' x') \<Rightarrow> f64_round (s \<noteq> s') (m * m') 1 (x + x'))"

text \<open>\<^verbatim>\<open>a / b\<close>: a division by zero is an infinity or a NaN, not a panic.\<close>

definition f64_div :: "float64 \<Rightarrow> float64 \<Rightarrow> float64" where
  "f64_div a b =
     (case (classify a, classify b) of
        (NaN, _) \<Rightarrow> f64_NaN
      | (_, NaN) \<Rightarrow> f64_NaN
      | (Inf s, Inf s') \<Rightarrow> f64_NaN
      | (Inf s, Fin s' m' x') \<Rightarrow> f64_Inf (s \<noteq> s')
      | (Fin s m x, Inf s') \<Rightarrow> of_nat (signBit (s \<noteq> s'))
      | (Fin s m x, Fin s' m' x') \<Rightarrow>
          if m' = 0 then (if m = 0 then f64_NaN else f64_Inf (s \<noteq> s'))
          else f64_round (s \<noteq> s') m m' (x - x'))"

text \<open>\<^verbatim>\<open>float64(n)\<close> for a \<^verbatim>\<open>uint64\<close> and for an \<^verbatim>\<open>int\<close> (64 bits, two's complement).\<close>

definition f64_of_uint64 :: "64 word \<Rightarrow> float64" where
  "f64_of_uint64 n = f64_round False (unat n) 1 0"

definition f64_of_int :: "64 word \<Rightarrow> float64" where
  "f64_of_int n = f64_round (sint n < 0) (nat \<bar>sint n\<bar>) 1 0"

text \<open>
  \<^verbatim>\<open>int(x)\<close> for a \<^verbatim>\<open>float64\<close>: the fraction is discarded. When the value does not fit
  (also for a NaN and the infinities) the Go specification leaves the result to the
  implementation: it is what the parameter \<open>platform\<close> returns.
\<close>

definition f64_to_int :: "(float64 \<Rightarrow> 64 word) \<Rightarrow> float64 \<Rightarrow> 64 word" where
  "f64_to_int platform w =
     (case classify w of
        Fin s m x \<Rightarrow>
          (let a = (if x \<ge> 0 then m * 2 ^ nat x else m div 2 ^ nat (- x))
           in if \<not> s \<and> a < 2 ^ 63 then of_nat a
              else if s \<and> a \<le> 2 ^ 63 then - of_nat a
              else platform w)
      | _ \<Rightarrow> platform w)"

text \<open>
  \<^verbatim>\<open>fmt.Sprintf("%.kf", x)\<close>: the exact decimal expansion of the value rounded to \<open>k\<close>
  digits after the point, ties to even, with the sign of the value; \<open>NaN\<close>, \<open>+Inf\<close>
  and \<open>-Inf\<close> for the values that are not numbers.
\<close>

text \<open>
  The magnitude \<open>m * 2^x\<close> times \<open>10^k\<close>, rounded to an integer, ties to even.
\<close>

definition decimalScaled :: "nat \<Rightarrow> nat \<Rightarrow> int \<Rightarrow> nat" where
  "decimalScaled k m x =
     roundHalfEven (if x \<ge> 0 then m * 2 ^ nat x * 10 ^ k else m * 10 ^ k)
       (if x \<ge> 0 then 1 else 2 ^ nat (- x))"

definition minus :: "bool \<Rightarrow> string" where
  "minus s = (if s then ''-'' else [])"

definition digit :: "nat \<Rightarrow> char" where
  "digit d = ''0123456789'' ! d"

fun showNat :: "nat \<Rightarrow> string" where
  "showNat n = (if n < 10 then [digit n] else showNat (n div 10) @ [digit (n mod 10)])"

declare showNat.simps [simp del]

definition fmtFixed :: "nat \<Rightarrow> float64 \<Rightarrow> string" where
  "fmtFixed k w =
     (case classify w of
        NaN \<Rightarrow> ''NaN''
      | Inf s \<Rightarrow> (if s then ''-Inf'' else ''+Inf'')
      | Fin s m x \<Rightarrow>
          (let q = decimalScaled k m x;
               ip = showNat (q div 10 ^ k);
               fp = showNat (q mod 10 ^ k)
           in minus s @ ip
              @ (if k = 0 then [] else ''.'' @ replicate (k - length fp) (CHR ''0'') @ fp)))"

subsection \<open>quantileToStatistic\<close>

definition quantileToStatistic :: "(float64 \<Rightarrow> 64 word) \<Rightarrow> float64 \<Rightarrow> string" where
  "quantileToStatistic platform q =
     (if f64_eq q 0 then ''Minimum''
      else if f64_eq q 0x3FF0000000000000 then ''Maximum''
      else
        (let pct = f64_mul q 0x4059000000000000 in
         if f64_eq pct (f64_of_int (f64_to_int platform pct))
         then ''p'' @ fmtFixed 0 pct
         else ''p'' @ strings_ReplaceAll (fmtFixed 1 pct) (CHR ''.'') (CHR ''_'')))"

text \<open>
  An instance of the parameter \<open>platform\<close>: on arm64 the conversion saturates, and a NaN
  is converted to 0.
\<close>

definition arm64_int :: "float64 \<Rightarrow> 64 word" where
  "arm64_int w =
     (case classify w of
        NaN \<Rightarrow> 0
      | Inf s \<Rightarrow> (if s then 0x8000000000000000 else 0x7FFFFFFFFFFFFFFF)
      | Fin s m x \<Rightarrow> (if s then 0x8000000000000000 else 0x7FFFFFFFFFFFFFFF))"

subsection \<open>OTLP metrics\<close>

text \<open>
  The messages of \<^verbatim>\<open>metricspb\<close> the program reads and writes, with the fields it uses.
  Of the kinds of data of a metric only the summary and the gauge are told apart; the
  others (sum, histogram, exponential histogram, none) are \<open>OtherData\<close>.
\<close>

record ValueAtQuantile =
  Quantile :: float64
  QuantileValue :: float64

record SummaryDataPoint =
  Attributes :: "KeyValue option list"
  StartTimeUnixNano :: "64 word"
  TimeUnixNano :: "64 word"
  Count :: "64 word"
  Sum :: float64
  QuantileValues :: "ValueAtQuantile list"

record NumberDataPoint =
  ndAttributes :: "KeyValue option list"
  ndStartTimeUnixNano :: "64 word"
  ndTimeUnixNano :: "64 word"
  AsDouble :: float64

datatype MetricData =
    Metric_Summary "SummaryDataPoint list"
  | Metric_Gauge "NumberDataPoint list"
  | OtherData

record Metric =
  Name :: string
  Data :: MetricData

subsection \<open>newGauge and summaryToGauges\<close>

definition newGauge ::
  "string \<Rightarrow> float64 \<Rightarrow> 64 word \<Rightarrow> 64 word \<Rightarrow> KeyValue option list \<Rightarrow> Metric" where
  "newGauge name val timestampNano startTimeNano attrs =
     \<lparr>Name = name,
      Data = Metric_Gauge
        [\<lparr>ndAttributes = attrs, ndStartTimeUnixNano = startTimeNano,
          ndTimeUnixNano = timestampNano, AsDouble = val\<rparr>]\<rparr>"

text \<open>\<^verbatim>\<open>enabledStats[name]\<close> on a \<^verbatim>\<open>map[string]bool\<close>: a missing key reads as false.\<close>

definition enabled :: "(string \<rightharpoonup> bool) \<Rightarrow> string \<Rightarrow> bool" where
  "enabled enabledStats name = (case enabledStats name of None \<Rightarrow> False | Some b \<Rightarrow> b)"

text \<open>
  The loop over the quantile values. \<open>BuildMetricName\<close> is \<^verbatim>\<open>promutil.BuildMetricName\<close>.
\<close>

fun addQuantileGauges ::
  "(float64 \<Rightarrow> 64 word) \<Rightarrow> (string \<Rightarrow> string \<Rightarrow> string \<Rightarrow> string) \<Rightarrow> cwMetric \<Rightarrow>
   64 word \<Rightarrow> 64 word \<Rightarrow> KeyValue option list \<Rightarrow> (string \<rightharpoonup> bool) \<Rightarrow>
   Metric list \<Rightarrow> ValueAtQuantile list \<Rightarrow> Metric list" where
  "addQuantileGauges platform BuildMetricName cwm ts startTs attrs enabledStats gauges [] = gauges"
| "addQuantileGauges platform BuildMetricName cwm ts startTs attrs enabledStats gauges (qv # qvs) =
     (let stat = quantileToStatistic platform (Quantile qv) in
      if enabled enabledStats stat
      then addQuantileGauges platform BuildMetricName cwm ts startTs attrs enabledStats
             (gauges @ [newGauge (BuildMetricName (Namespace cwm) (MetricName cwm) stat)
                          (QuantileValue qv) ts startTs attrs]) qvs
      else addQuantileGauges platform BuildMetricName cwm ts startTs attrs enabledStats gauges qvs)"

definition summaryToGauges ::
  "(float64 \<Rightarrow> 64 word) \<Rightarrow> (string \<Rightarrow> string \<Rightarrow> string \<Rightarrow> string) \<Rightarrow> cwMetric \<Rightarrow>
   SummaryDataPoint \<Rightarrow> KeyValue option list \<Rightarrow> (string \<rightharpoonup> bool) \<Rightarrow> Metric list" where
  "summaryToGauges platform BuildMetricName cwm dp attrs enabledStats =
     (let gauges0 = [];
          ts = TimeUnixNano dp;
          startTs = StartTimeUnixNano dp;
          count = Count dp;
          sum = Sum dp;
          gauges1 = (if enabled enabledStats ''SampleCount''
                     then gauges0 @ [newGauge
                            (BuildMetricName (Namespace cwm) (MetricName cwm) ''SampleCount'')
                            (f64_of_uint64 count) ts startTs attrs]
                     else gauges0);
          gauges2 = (if enabled enabledStats ''Sum''
                     then gauges1 @ [newGauge
                            (BuildMetricName (Namespace cwm) (MetricName cwm) ''Sum'')
                            sum ts startTs attrs]
                     else gauges1);
          gauges3 = (if enabled enabledStats ''Average'' \<and> count > 0
                     then gauges2 @ [newGauge
                            (BuildMetricName (Namespace cwm) (MetricName cwm) ''Average'')
                            (f64_div sum (f64_of_uint64 count)) ts startTs attrs]
                     else gauges2)
      in addQuantileGauges platform BuildMetricName cwm ts startTs attrs enabledStats gauges3
           (QuantileValues dp))"




text \<open>
  Instances for running the expander on examples: a metric name made of the three parts
  joined by underscores, the five default statistics, and the data point of the README
  with a given count (sum 50, minimum 2, maximum 10).
\<close>

definition joinedName :: "string \<Rightarrow> string \<Rightarrow> string \<Rightarrow> string" where
  "joinedName namespace metricName statistic = namespace @ ''_'' @ metricName @ ''_'' @ statistic"

definition defaultYACEStats :: "string \<rightharpoonup> bool" where
  "defaultYACEStats =
     [''Maximum'' \<mapsto> True, ''Minimum'' \<mapsto> True, ''Average'' \<mapsto> True, ''Sum'' \<mapsto> True,
      ''SampleCount'' \<mapsto> True]"

definition readmePoint :: "64 word \<Rightarrow> SummaryDataPoint" where
  "readmePoint n =
     \<lparr>Attributes = [], StartTimeUnixNano = 900000000, TimeUnixNano = 1000000000,
      Count = n, Sum = 0x4049000000000000,
      QuantileValues = [\<lparr>Quantile = 0, QuantileValue = 0x4000000000000000\<rparr>,
                        \<lparr>Quantile = 0x3FF0000000000000, QuantileValue = 0x4024000000000000\<rparr>]\<rparr>"


subsection \<open>The batch\<close>

record ScopeMetrics =
  Metrics :: "Metric list"

record Resource =
  resAttributes :: "KeyValue option list"

record ResourceMetrics =
  Resource :: "Resource option"
  ScopeMetrics :: "ScopeMetrics list"

record ExportMetricsServiceRequest =
  ResourceMetrics :: "ResourceMetrics list"

subsection \<open>attrValue, extractResourceAttributes, buildCloudWatchMetricFromKeyValues\<close>

fun attrValue :: "KeyValue option list \<Rightarrow> string \<Rightarrow> string" where
  "attrValue [] key = []"
| "attrValue (None # attrs) key = attrValue attrs key"
| "attrValue (Some a # attrs) key =
     (if GetKey a = key
      then (case GetValue a of Some v \<Rightarrow> GetStringValue v | None \<Rightarrow> [])
      else attrValue attrs key)"

text \<open>The loop of \<^verbatim>\<open>extractResourceAttributes\<close> over the attributes of the resource.\<close>

fun scanResourceAttributes ::
  "string \<times> string \<Rightarrow> KeyValue option list \<Rightarrow> string \<times> string" where
  "scanResourceAttributes (accountID, resourceRegion) [] = (accountID, resourceRegion)"
| "scanResourceAttributes (accountID, resourceRegion) (None # attrs) =
     scanResourceAttributes (accountID, resourceRegion) attrs"
| "scanResourceAttributes (accountID, resourceRegion) (Some attr # attrs) =
     (if GetKey attr = ''cloud.account.id''
      then (case GetValue attr of
              Some v \<Rightarrow> scanResourceAttributes (GetStringValue v, resourceRegion) attrs
            | None \<Rightarrow> scanResourceAttributes (accountID, resourceRegion) attrs)
      else if GetKey attr = ''cloud.region''
      then (case GetValue attr of
              Some v \<Rightarrow> scanResourceAttributes (accountID, GetStringValue v) attrs
            | None \<Rightarrow> scanResourceAttributes (accountID, resourceRegion) attrs)
      else scanResourceAttributes (accountID, resourceRegion) attrs)"

definition extractResourceAttributes :: "ResourceMetrics \<Rightarrow> string \<times> string" where
  "extractResourceAttributes rm =
     (case Resource rm of
        None \<Rightarrow> ([], [])
      | Some res \<Rightarrow> scanResourceAttributes ([], []) (resAttributes res))"

text \<open>The inner loop of \<^verbatim>\<open>buildCloudWatchMetricFromKeyValues\<close> over the key/value list.\<close>

fun appendDimensions :: "Dimension list \<Rightarrow> KeyValue option list \<Rightarrow> Dimension list" where
  "appendDimensions dims [] = dims"
| "appendDimensions dims (None # kvs) = appendDimensions dims kvs"
| "appendDimensions dims (Some kv # kvs) =
     (case GetValue kv of
        None \<Rightarrow> appendDimensions dims kvs
      | Some v \<Rightarrow>
          appendDimensions (dims @ [\<lparr>dimName = GetKey kv, dimValue = GetStringValue v\<rparr>]) kvs)"

fun scanAttributes :: "cwMetric \<Rightarrow> KeyValue option list \<Rightarrow> cwMetric" where
  "scanAttributes cwm [] = cwm"
| "scanAttributes cwm (None # attrs) = scanAttributes cwm attrs"
| "scanAttributes cwm (Some a # attrs) =
     (case GetValue a of
        None \<Rightarrow> scanAttributes cwm attrs
      | Some v \<Rightarrow>
          if GetKey a = ''MetricName''
          then scanAttributes (cwm\<lparr>MetricName := GetStringValue v\<rparr>) attrs
          else if GetKey a = ''Namespace''
          then scanAttributes (cwm\<lparr>Namespace := GetStringValue v\<rparr>) attrs
          else if GetKey a = ''Dimensions''
          then (case v of
                  KvlistValue kvs \<Rightarrow>
                    scanAttributes (cwm\<lparr>Dimensions := appendDimensions (Dimensions cwm) kvs\<rparr>) attrs
                | _ \<Rightarrow> scanAttributes cwm attrs)
          else scanAttributes cwm attrs)"

definition buildCloudWatchMetricFromKeyValues :: "KeyValue option list \<Rightarrow> cwMetric" where
  "buildCloudWatchMetricFromKeyValues attrs =
     scanAttributes \<lparr>Namespace = [], MetricName = [], Dimensions = []\<rparr> attrs"

subsection \<open>enhanceRequests\<close>

text \<open>
  The arguments of \<open>enhanceRequests\<close> that stay fixed during a call, and the functions
  of other packages it calls: \<^verbatim>\<open>config.SupportedServices.GetService\<close>,
  \<^verbatim>\<open>maxdimassociator.NewAssociator\<close> (on the dimension patterns of the service) and
  \<^verbatim>\<open>AssociateMetricToResource\<close>, \<^verbatim>\<open>promutil.BuildMetricName\<close> and \<^verbatim>\<open>PromStringTag\<close>,
  \<^verbatim>\<open>TaggedResource.MetricTags\<close>, the conversion \<^verbatim>\<open>int(x)\<close> out of range, and the
  environment of the cache.
\<close>

record ('svc, 'asc) config =
  cfgFileCachePath :: string
  cfgContinueOnResourceFailure :: bool
  cfgRegion :: "string option"
  cfgFileCacheExpiration :: int
  cfgFileCacheEnabled :: bool
  cfgStaticLabels :: "(string \<times> string) list"
  cfgDefaultLabels :: bool
  cfgLabelsSnakeCase :: bool
  cfgExportedTags :: "string list"
  cfgYaceCompatMode :: bool
  cfgYaceCompatStats :: "string \<rightharpoonup> bool"
  libGetService :: "string \<Rightarrow> 'svc option"
  libNewAssociator :: "'svc \<Rightarrow> TaggedResource list \<Rightarrow> 'asc"
  libAssociateMetricToResource :: "'asc \<Rightarrow> cwMetric \<Rightarrow> TaggedResource option \<times> bool"
  libBuildMetricName :: "string \<Rightarrow> string \<Rightarrow> string \<Rightarrow> string"
  libPromStringTag :: promStringTag
  libMetricTags :: "TaggedResource \<Rightarrow> string list \<Rightarrow> Tag list"
  libPlatform :: "float64 \<Rightarrow> 64 word"
  libCacheEnv :: cacheEnv

text \<open>
  What a call changes besides the batch: the two maps the caller passes in
  (\<^verbatim>\<open>resourceCache\<close>, \<^verbatim>\<open>associatorCache\<close>) and the world.
\<close>

record 'asc runState =
  resourceCache :: "string \<rightharpoonup> TaggedResource list"
  associatorCache :: "string \<rightharpoonup> 'asc"
  outside :: world

text \<open>
  A \<^verbatim>\<open>for ... range\<close> loop whose body may return an error from the enclosing function:
  the body maps the state and an element to the error (if it returns one), the new
  state and the element as the body left it; after an error the remaining elements are
  untouched.
\<close>

fun forEach ::
  "('s \<Rightarrow> 'a \<Rightarrow> error option \<times> 's \<times> 'a) \<Rightarrow> 's \<Rightarrow> 'a list \<Rightarrow> error option \<times> 's \<times> 'a list" where
  "forEach body s [] = (None, s, [])"
| "forEach body s (x # xs) =
     (case body s x of
        (Some err, s', x') \<Rightarrow> (Some err, s', x' # xs)
      | (None, s', x') \<Rightarrow>
          (case forEach body s' xs of (err, s'', xs') \<Rightarrow> (err, s'', x' # xs')))"

text \<open>
  The block \<^verbatim>\<open>if _, ok := resourceCache[cwm.Namespace]; !ok { ... }\<close>: how the body of
  the loop goes on after it.
\<close>

datatype 'a flow = Proceed 'a | Continue 'a | Return error 'a

text \<open>
  A panic (the nil region that \<open>retrieveResources\<close> dereferences) is not an error value
  the block can test: it unwinds through \<open>enhanceRequests\<close>, whatever the policy.
\<close>

fun isPanic :: "error \<Rightarrow> bool" where
  "isPanic (Panic msg) = True"
| "isPanic err = False"

definition ensureResources ::
  "('svc, 'asc) config \<Rightarrow> string \<Rightarrow> 'asc runState \<Rightarrow> 'asc runState flow" where
  "ensureResources cfg namespace st =
     (case resourceCache st namespace of
        Some rs \<Rightarrow> Proceed st
      | None \<Rightarrow>
          (case getOrCacheResources (libCacheEnv cfg) (cfgFileCachePath cfg) namespace
                  (cfgRegion cfg) (cfgFileCacheExpiration cfg) (cfgFileCacheEnabled cfg)
                  (outside st) of
             (Inl err, w) \<Rightarrow>
               if isPanic err then Return err (st\<lparr>outside := w\<rparr>)
               else if err \<noteq> ErrExpectedToFindResources
               then (if cfgContinueOnResourceFailure cfg
                     then Continue (st\<lparr>outside := w\<rparr>)
                     else Return err (st\<lparr>outside := w\<rparr>))
               else Proceed (st\<lparr>outside := w,
                               resourceCache := (resourceCache st)(namespace \<mapsto> [])\<rparr>)
           | (Inr resources, w) \<Rightarrow>
               Proceed (st\<lparr>outside := w,
                          resourceCache := (resourceCache st)(namespace \<mapsto> resources)\<rparr>)))"

text \<open>
  \<^verbatim>\<open>asc, ok := associatorCache[ns]\<close> and the creation of the associator on a miss, on
  \<^verbatim>\<open>resourceCache[ns]\<close> (nil when the key is missing).
\<close>

definition ensureAssociator ::
  "('svc, 'asc) config \<Rightarrow> 'svc \<Rightarrow> string \<Rightarrow> 'asc runState \<Rightarrow> 'asc \<times> 'asc runState" where
  "ensureAssociator cfg svc namespace st =
     (case associatorCache st namespace of
        Some asc \<Rightarrow> (asc, st)
      | None \<Rightarrow>
          (let asc = libNewAssociator cfg svc
                       (case resourceCache st namespace of None \<Rightarrow> [] | Some rs \<Rightarrow> rs)
           in (asc, st\<lparr>associatorCache := (associatorCache st)(namespace \<mapsto> asc)\<rparr>)))"

text \<open>
  The body of the loop over the data points of a summary. The state of the loop is the
  run state, the list \<^verbatim>\<open>newMetrics\<close> and the name of the metric (which the body
  assigns when the expansion mode is off).
\<close>

definition enhanceDataPoint ::
  "('svc, 'asc) config \<Rightarrow> string \<Rightarrow> string \<Rightarrow> ('asc runState \<times> Metric list) \<times> string \<Rightarrow>
   SummaryDataPoint \<Rightarrow> error option \<times> (('asc runState \<times> Metric list) \<times> string) \<times> SummaryDataPoint" where
  "enhanceDataPoint cfg accountID effectiveRegion s dp =
     (case s of
        ((st, newMetrics), metricName) \<Rightarrow>
          (let attrs = Attributes dp;
               cwm = buildCloudWatchMetricFromKeyValues attrs in
           if MetricName cwm = [] \<or> Namespace cwm = [] then (None, s, dp)
           else
             (case libGetService cfg (Namespace cwm) of
                None \<Rightarrow> (None, s, dp)
              | Some svc \<Rightarrow>
                  (case ensureResources cfg (Namespace cwm) st of
                     Continue st1 \<Rightarrow> (None, ((st1, newMetrics), metricName), dp)
                   | Return err st1 \<Rightarrow> (Some err, ((st1, newMetrics), metricName), dp)
                   | Proceed st1 \<Rightarrow>
                       (case ensureAssociator cfg svc (Namespace cwm) st1 of
                          (asc, st2) \<Rightarrow>
                            (case libAssociateMetricToResource cfg asc cwm of
                               (r, skip) \<Rightarrow>
                                 (let yaceLabels =
                                        buildYACELabelsKeyValue (libPromStringTag cfg)
                                          (libMetricTags cfg) cwm r skip (cfgStaticLabels cfg)
                                          (cfgDefaultLabels cfg) (cfgLabelsSnakeCase cfg)
                                          (cfgExportedTags cfg) effectiveRegion accountID in
                                  if cfgYaceCompatMode cfg
                                  then (None,
                                        ((st2, newMetrics
                                            @ summaryToGauges (libPlatform cfg)
                                                (libBuildMetricName cfg) cwm dp yaceLabels
                                                (cfgYaceCompatStats cfg)),
                                         metricName),
                                        dp)
                                  else
                                    (let statistic =
                                           (if attrValue attrs ''Statistic'' = []
                                            then attrValue attrs ''statistic''
                                            else attrValue attrs ''Statistic'')
                                     in (None,
                                         ((st2, newMetrics),
                                          libBuildMetricName cfg (Namespace cwm) (MetricName cwm)
                                            statistic),
                                         dp\<lparr>Attributes := yaceLabels\<rparr>)))))))))"

text \<open>
  The body of the loop over the metrics of a scope: the data points of a summary are
  enhanced, and the metric carries the name and the data points the loop left; any other
  metric is appended to \<^verbatim>\<open>newMetrics\<close> in the expansion mode and left alone otherwise.
\<close>

definition enhanceMetric ::
  "('svc, 'asc) config \<Rightarrow> string \<Rightarrow> string \<Rightarrow> 'asc runState \<times> Metric list \<Rightarrow> Metric \<Rightarrow>
   error option \<times> ('asc runState \<times> Metric list) \<times> Metric" where
  "enhanceMetric cfg accountID effectiveRegion s metric =
     (case Data metric of
        Metric_Summary dps \<Rightarrow>
          (case forEach (enhanceDataPoint cfg accountID effectiveRegion) (s, Name metric) dps of
             (err, (s', name), dps') \<Rightarrow>
               (err, s', metric\<lparr>Name := name, Data := Metric_Summary dps'\<rparr>))
      | _ \<Rightarrow>
          (case s of
             (st, newMetrics) \<Rightarrow>
               if cfgYaceCompatMode cfg then (None, (st, newMetrics @ [metric]), metric)
               else (None, s, metric)))"

text \<open>
  The body of the loop over the scopes: \<^verbatim>\<open>newMetrics\<close> starts empty, and after the loop
  over the metrics has ended without a return the expansion mode replaces the metrics of
  the scope by it.
\<close>

definition enhanceScope ::
  "('svc, 'asc) config \<Rightarrow> string \<Rightarrow> string \<Rightarrow> 'asc runState \<Rightarrow> ScopeMetrics \<Rightarrow>
   error option \<times> 'asc runState \<times> ScopeMetrics" where
  "enhanceScope cfg accountID effectiveRegion st sm =
     (case forEach (enhanceMetric cfg accountID effectiveRegion) (st, []) (Metrics sm) of
        (Some err, (st', newMetrics), metrics') \<Rightarrow> (Some err, st', sm\<lparr>Metrics := metrics'\<rparr>)
      | (None, (st', newMetrics), metrics') \<Rightarrow>
          if cfgYaceCompatMode cfg then (None, st', sm\<lparr>Metrics := newMetrics\<rparr>)
          else (None, st', sm\<lparr>Metrics := metrics'\<rparr>))"

definition enhanceResourceMetrics ::
  "('svc, 'asc) config \<Rightarrow> 'asc runState \<Rightarrow> ResourceMetrics \<Rightarrow>
   error option \<times> 'asc runState \<times> ResourceMetrics" where
  "enhanceResourceMetrics cfg st rm =
     (case extractResourceAttributes rm of
        (accountID, resourceRegion) \<Rightarrow>
          (let effectiveRegion =
                 (if resourceRegion = []
                  then (case cfgRegion cfg of None \<Rightarrow> resourceRegion | Some r \<Rightarrow> r)
                  else resourceRegion)
           in case forEach (enhanceScope cfg accountID effectiveRegion) st (ScopeMetrics rm) of
                (err, st', sms') \<Rightarrow> (err, st', rm\<lparr>ScopeMetrics := sms'\<rparr>)))"

definition enhanceRequest ::
  "('svc, 'asc) config \<Rightarrow> 'asc runState \<Rightarrow> ExportMetricsServiceRequest \<Rightarrow>
   error option \<times> 'asc runState \<times> ExportMetricsServiceRequest" where
  "enhanceRequest cfg st req =
     (case forEach (enhanceResourceMetrics cfg) st (ResourceMetrics req) of
        (err, st', rms') \<Rightarrow> (err, st', req\<lparr>ResourceMetrics := rms'\<rparr>))"

text \<open>
  \<open>enhanceRequests\<close>: the error it returns (if any), the maps and the world after the
  call, and the batch as the call left it.
\<close>

definition enhanceRequests ::
  "('svc, 'asc) config \<Rightarrow> 'asc runState \<Rightarrow> ExportMetricsServiceRequest list \<Rightarrow>
   error option \<times> 'asc runState \<times> ExportMetricsServiceRequest list" where
  "enhanceRequests cfg st expMetricsReqs = forEach (enhanceRequest cfg) st expMetricsReqs"








text \<open>
  A list of events is quiet for a namespace when it holds no call of
  \<open>getOrCacheResources\<close> and no call of the client for it. \<open>stateAfter\<close> is the run state
  in the result of the body of the loop over the data points.
\<close>

definition quietFor :: "string \<Rightarrow> event list \<Rightarrow> bool" where
  "quietFor ns es = (ns \<notin> set (lookups es) \<and> ns \<notin> set (fetches es))"

definition stateAfter ::
  "error option \<times> (('asc runState \<times> Metric list) \<times> string) \<times> SummaryDataPoint \<Rightarrow> 'asc runState" where
  "stateAfter r = fst (fst (fst (snd r)))"

definition namespaceOf :: "SummaryDataPoint \<Rightarrow> string" where
  "namespaceOf dp = Namespace (buildCloudWatchMetricFromKeyValues (Attributes dp))"

definition metricNameOf :: "SummaryDataPoint \<Rightarrow> string" where
  "metricNameOf dp = MetricName (buildCloudWatchMetricFromKeyValues (Attributes dp))"

text \<open>
  The invariant of a run for a namespace that is in the map: its entry stays as it is,
  and what the run has added to the trace since \<open>t0\<close> is quiet for it.
\<close>

definition keeps :: "string \<Rightarrow> TaggedResource list \<Rightarrow> event list \<Rightarrow> 'asc runState \<Rightarrow> bool" where
  "keeps ns rs t0 st =
     (resourceCache st ns = Some rs \<and> (\<exists>es. trace (outside st) = t0 @ es \<and> quietFor ns es))"

text \<open>
  The call of \<open>getOrCacheResources\<close> the block makes for a namespace, the data points that
  reach the block with their namespace missing in the map, and the errors the policy
  \<^verbatim>\<open>continueOnResourceFailure\<close> skips.
\<close>

definition fetchFor ::
  "('svc, 'asc) config \<Rightarrow> string \<Rightarrow> 'asc runState \<Rightarrow> (error + TaggedResource list) \<times> world" where
  "fetchFor cfg ns st =
     getOrCacheResources (libCacheEnv cfg) (cfgFileCachePath cfg) ns (cfgRegion cfg)
       (cfgFileCacheExpiration cfg) (cfgFileCacheEnabled cfg) (outside st)"

definition reachesFetch :: "('svc, 'asc) config \<Rightarrow> 'asc runState \<Rightarrow> SummaryDataPoint \<Rightarrow> bool" where
  "reachesFetch cfg st dp =
     (metricNameOf dp \<noteq> [] \<and> namespaceOf dp \<noteq> [] \<and> libGetService cfg (namespaceOf dp) \<noteq> None
      \<and> resourceCache st (namespaceOf dp) = None)"

definition skippedFailure :: "('svc, 'asc) config \<Rightarrow> error \<Rightarrow> bool" where
  "skippedFailure cfg err =
     (cfgContinueOnResourceFailure cfg \<and> \<not> isPanic err \<and> err \<noteq> ErrExpectedToFindResources)"

text \<open>
  Instances for running the orchestrator on examples: two supported namespaces, an
  associator that is the list of resources and associates the first of them, a client
  that fails, and a batch of one scope with a summary of three data points (of the
  namespaces \<open>AWS/EC2\<close>, \<open>AWS/RDS\<close> and \<open>AWS/EC2\<close>) and a gauge.
\<close>

definition knownNamespaces :: "string \<Rightarrow> unit option" where
  "knownNamespaces ns = (if ns = ''AWS/EC2'' \<or> ns = ''AWS/RDS'' then Some () else None)"

definition firstResource :: "TaggedResource list \<Rightarrow> cwMetric \<Rightarrow> TaggedResource option \<times> bool" where
  "firstResource rs cwm = (case rs of [] \<Rightarrow> (None, False) | r # rs' \<Rightarrow> (Some r, False))"

definition failingEnv :: cacheEnv where
  "failingEnv = (fixedEnv 0)\<lparr>GetResources := (\<lambda>tr ns reg. ([], Some (LibError ''throttled'')))\<rparr>"

definition exampleConfig :: "bool \<Rightarrow> cacheEnv \<Rightarrow> (unit, TaggedResource list) config" where
  "exampleConfig expand env =
     \<lparr>cfgFileCachePath = ''/tmp'', cfgContinueOnResourceFailure = True,
      cfgRegion = Some ''eu-west-1'', cfgFileCacheExpiration = 3600000000000,
      cfgFileCacheEnabled = False, cfgStaticLabels = [], cfgDefaultLabels = True,
      cfgLabelsSnakeCase = False, cfgExportedTags = [], cfgYaceCompatMode = expand,
      cfgYaceCompatStats = defaultYACEStats, libGetService = knownNamespaces,
      libNewAssociator = (\<lambda>svc rs. rs), libAssociateMetricToResource = firstResource,
      libBuildMetricName = joinedName, libPromStringTag = plainStringTag,
      libMetricTags = metricTagsOf, libPlatform = arm64_int, libCacheEnv = env\<rparr>"

definition summaryPoint :: "string \<Rightarrow> SummaryDataPoint" where
  "summaryPoint ns =
     (readmePoint 5)\<lparr>Attributes := [stringKV ''Namespace'' ns, stringKV ''MetricName'' ''CPUUtilization'']\<rparr>"

definition exampleBatch :: "ExportMetricsServiceRequest list" where
  "exampleBatch =
     [\<lparr>ResourceMetrics =
         [\<lparr>Resource = None,
           ScopeMetrics =
             [\<lparr>Metrics =
                 [\<lparr>Name = ''cpu'',
                   Data = Metric_Summary
                            [summaryPoint ''AWS/EC2'', summaryPoint ''AWS/RDS'', summaryPoint ''AWS/EC2'']\<rparr>,
                  \<lparr>Name = ''up'', Data = Metric_Gauge []\<rparr>]\<rparr>]\<rparr>]\<rparr>]"

definition rdsKnown :: "TaggedResource list runState" where
  "rdsKnown =
     \<lparr>resourceCache = [''AWS/RDS'' \<mapsto> []], associatorCache = Map.empty,
      outside = \<lparr>files = Map.empty, trace = []\<rparr>\<rparr>"

text \<open>The labels of the example data points, for a resource the associator gives.\<close>

definition labelsOf :: "string \<Rightarrow> TaggedResource option \<Rightarrow> KeyValue option list" where
  "labelsOf ns res =
     buildYACELabelsKeyValue plainStringTag metricTagsOf
       \<lparr>Namespace = ns, MetricName = ''CPUUtilization'', Dimensions = []\<rparr> res False [] True False []
       ''eu-west-1'' []"

section \<open>Properties\<close>

subsection \<open>parseStaticLabels\<close>

lemma splitFrom_nonempty: "splitFrom sep cur s \<noteq> []"
  by (induction s arbitrary: cur) auto

lemma splitFrom_hd:
  "hd (splitFrom sep cur s) = cur @ takeWhile (\<lambda>c. c \<noteq> sep) s"
  by (induction s arbitrary: cur) auto

lemma index_Split_0:
  "index (strings_Split label sep) 0 = Inr (takeWhile (\<lambda>c. c \<noteq> sep) label)"
  using splitFrom_nonempty [of sep "[]" label] splitFrom_hd [of sep "[]" label]
  by (simp add: index_def strings_Split_def hd_conv_nth)

lemma index_SplitN2_1:
  "sep \<in> set label \<Longrightarrow>
   index (strings_SplitN2 label sep) (Suc 0) = Inr (tl (dropWhile (\<lambda>c. c \<noteq> sep) label))"
  by (simp add: index_def strings_SplitN2_def)

lemma parseLabelEntries_step:
  "entryOK label \<Longrightarrow>
   parseLabelEntries (label # rest) m =
   parseLabelEntries rest (putLabel m label)"
  by (simp add: entryOK_def strings_Contains_def index_Split_0 index_SplitN2_1
      labelKey_def labelValue_def putLabel_def)

lemma parseLabelEntries_accepts:
  "list_all entryOK labels \<Longrightarrow>
   parseLabelEntries labels m =
   (foldl putLabel m labels, None)"
proof (induction labels arbitrary: m)
  case Nil
  show ?case by simp
next
  case (Cons l ls)
  then have "entryOK l" and "list_all entryOK ls" by simp_all
  with Cons.IH show ?case by (simp add: parseLabelEntries_step del: parseLabelEntries.simps)
qed

lemma parseLabelEntries_rejects:
  "\<not> list_all entryOK labels \<Longrightarrow>
   snd (parseLabelEntries labels m) \<in> {Some ErrEmptyLabel, Some ErrNotKeyValue}"
proof (induction labels arbitrary: m)
  case Nil
  then show ?case by simp
next
  case (Cons l ls)
  show ?case
  proof (cases "entryOK l")
    case True
    with Cons.prems have "\<not> list_all entryOK ls" by simp
    from Cons.IH [OF this] True show ?thesis
      by (simp add: parseLabelEntries_step del: parseLabelEntries.simps)
  next
    case False
    then show ?thesis by (auto simp: entryOK_def strings_Contains_def)
  qed
qed

lemma jsonStringArray_ab_cd:
  \<open>jsonStringArray ''["a=b","c=d"]'' = Inr [''a=b'', ''c=d'']\<close>
  by (simp add: jsonStringArray_def)

lemma jsonStringArray_noequals:
  \<open>jsonStringArray ''["noequals"]'' = Inr [''noequals'']\<close>
  by (simp add: jsonStringArray_def)

lemma jsonStringArray_malformed:
  \<open>jsonStringArray ''env=prod,team'' = Inl (LibError ''json: cannot unmarshal'')\<close>
  by (simp add: jsonStringArray_def)

lemma jsonStringArray_two_eq:
  \<open>jsonStringArray ''["a=b=c"]'' = Inr [''a=b=c'']\<close>
  by (simp add: jsonStringArray_def)

text \<open>
  Claim C8, as the code has it. For a non-empty configuration text: an error of the
  JSON decoder is returned with the empty map; a decoded array is accepted exactly when
  every entry is non-empty and contains at least one \<open>=\<close> (not exactly one: the key is
  the text before the first \<open>=\<close> and the value is everything after it), and then the
  map holds one binding per entry, later entries overriding earlier ones; a decoded
  array with an empty entry or an entry without \<open>=\<close> yields one of the two parse
  errors. On the examples: \<open>["a=b","c=d"]\<close> gives \<open>{a: b, c: d}\<close>, the malformed text
  \<open>env=prod,team\<close> and the array \<open>["noequals"]\<close> give an error.
\<close>

theorem parseStaticLabels_spec:
  assumes "env \<noteq> []"
  shows \<open>(unmarshal env = Inl e \<longrightarrow> parseStaticLabels unmarshal env = (Map.empty, Some e))
    \<and> (unmarshal env = Inr labels \<and> list_all entryOK labels \<longrightarrow>
         parseStaticLabels unmarshal env = (foldl putLabel Map.empty labels, None))
    \<and> (unmarshal env = Inr labels \<and> \<not> list_all entryOK labels \<longrightarrow>
         snd (parseStaticLabels unmarshal env) \<in> {Some ErrEmptyLabel, Some ErrNotKeyValue})
    \<and> parseStaticLabels jsonStringArray ''["a=b","c=d"]'' =
         ([''a'' \<mapsto> ''b'', ''c'' \<mapsto> ''d''], None)
    \<and> snd (parseStaticLabels jsonStringArray ''env=prod,team'') =
         Some (LibError ''json: cannot unmarshal'')
    \<and> snd (parseStaticLabels jsonStringArray ''["noequals"]'') = Some ErrNotKeyValue\<close>
proof (intro conjI impI)
  assume "unmarshal env = Inl e"
  with assms show "parseStaticLabels unmarshal env = (Map.empty, Some e)"
    by (simp add: parseStaticLabels_def)
next
  assume "unmarshal env = Inr labels \<and> list_all entryOK labels"
  with assms show "parseStaticLabels unmarshal env = (foldl putLabel Map.empty labels, None)"
    by (simp add: parseStaticLabels_def parseLabelEntries_accepts)
next
  assume "unmarshal env = Inr labels \<and> \<not> list_all entryOK labels"
  with assms parseLabelEntries_rejects [of labels Map.empty]
  show "snd (parseStaticLabels unmarshal env) \<in> {Some ErrEmptyLabel, Some ErrNotKeyValue}"
    by (simp add: parseStaticLabels_def)
next
  have ok: "list_all entryOK [''a=b'', ''c=d'']" by (simp add: entryOK_def)
  show \<open>parseStaticLabels jsonStringArray ''["a=b","c=d"]'' =
         ([''a'' \<mapsto> ''b'', ''c'' \<mapsto> ''d''], None)\<close>
    by (simp add: parseStaticLabels_def jsonStringArray_ab_cd parseLabelEntries_accepts [OF ok]
        putLabel_def labelKey_def labelValue_def del: parseLabelEntries.simps)
next
  show "snd (parseStaticLabels jsonStringArray ''env=prod,team'') =
         Some (LibError ''json: cannot unmarshal'')"
    by (simp add: parseStaticLabels_def jsonStringArray_malformed)
next
  show \<open>snd (parseStaticLabels jsonStringArray ''["noequals"]'') = Some ErrNotKeyValue\<close>
    by (simp add: parseStaticLabels_def jsonStringArray_noequals strings_Contains_def)
qed

theorem parseStaticLabels_spec_witness:
  \<open>''["k=v","k=w"]'' \<noteq> []
   \<and> jsonStringArray ''["k=v","k=w"]'' = Inr [''k=v'', ''k=w'']
   \<and> list_all entryOK [''k=v'', ''k=w'']
   \<and> parseStaticLabels jsonStringArray ''["k=v","k=w"]'' = ([''k'' \<mapsto> ''w''], None)
   \<and> jsonStringArray ''x'' = Inl (LibError ''json: cannot unmarshal'')
   \<and> parseStaticLabels jsonStringArray ''x'' = (Map.empty, Some (LibError ''json: cannot unmarshal''))
   \<and> jsonStringArray ''["a=b",""]'' = Inr [''a=b'', '''']
   \<and> \<not> list_all entryOK [''a=b'', '''']
   \<and> snd (parseStaticLabels jsonStringArray ''["a=b",""]'') = Some ErrEmptyLabel\<close>
proof -
  have d1: \<open>jsonStringArray ''["k=v","k=w"]'' = Inr [''k=v'', ''k=w'']\<close>
    by (simp add: jsonStringArray_def)
  have d2: "jsonStringArray ''x'' = Inl (LibError ''json: cannot unmarshal'')"
    by (simp add: jsonStringArray_def)
  have d3: \<open>jsonStringArray ''["a=b",""]'' = Inr [''a=b'', '''']\<close>
    by (simp add: jsonStringArray_def)
  have ok: "list_all entryOK [''k=v'', ''k=w'']" and nok: "\<not> list_all entryOK [''a=b'', '''']"
    by (simp_all add: entryOK_def)
  have m: "foldl putLabel Map.empty [''k=v'', ''k=w''] = [''k'' \<mapsto> ''w'']"
    by (simp add: putLabel_def labelKey_def labelValue_def)
  have e1: \<open>parseStaticLabels jsonStringArray ''["k=v","k=w"]'' = ([''k'' \<mapsto> ''w''], None)\<close>
    using parseStaticLabels_spec [of \<open>''["k=v","k=w"]''\<close> jsonStringArray undefined "[''k=v'', ''k=w'']"]
      d1 ok m by simp
  have e2: "parseStaticLabels jsonStringArray ''x'' = (Map.empty, Some (LibError ''json: cannot unmarshal''))"
    using parseStaticLabels_spec [of "''x''" jsonStringArray "LibError ''json: cannot unmarshal''" "[]"]
      d2 by simp
  have e3: \<open>snd (parseStaticLabels jsonStringArray ''["a=b",""]'') = Some ErrEmptyLabel\<close>
    using parseStaticLabels_spec [of \<open>''["a=b",""]''\<close> jsonStringArray undefined "[''a=b'', '''']"]
      d3 nok
    by (simp add: parseStaticLabels_def strings_Contains_def index_Split_0 index_SplitN2_1)
  show ?thesis using d1 d2 d3 ok nok e1 e2 e3 by simp
qed

text \<open>
  The claim as stated asks for an error on every entry that is not of the shape with
  exactly one \<open>=\<close>; the entry \<open>a=b=c\<close> has two and is accepted.
\<close>

theorem parseStaticLabels_two_eq_accepted:
  \<open>parseStaticLabels jsonStringArray ''["a=b=c"]'' = ([''a'' \<mapsto> ''b=c''], None)\<close>
proof -
  have ok: "list_all entryOK [''a=b=c'']" by (simp add: entryOK_def)
  show ?thesis
    by (simp add: parseStaticLabels_def jsonStringArray_two_eq parseLabelEntries_accepts [OF ok]
        putLabel_def labelKey_def labelValue_def del: parseLabelEntries.simps)
qed

subsection \<open>buildYACELabelsKeyValue\<close>




lemma keyOf_stringKV [simp]: "keyOf (stringKV k v) = k"
  by (simp add: keyOf_def stringKV_def)






subsection \<open>getOrCacheResources\<close>

lemma fetches_append [simp]: "fetches (xs @ ys) = fetches xs @ fetches ys"
  by (induction xs rule: fetches.induct) simp_all

lemma lookups_append [simp]: "lookups (xs @ ys) = lookups xs @ lookups ys"
  by (induction xs rule: lookups.induct) simp_all

lemma newEvents_emit [simp]: "newEvents w (emit e w) = [e]"
  by (simp add: newEvents_def emit_def)

lemma trace_emit [simp]: "trace (emit e w) = trace w @ [e]"
  by (simp add: emit_def)

lemma files_emit [simp]: "files (emit e w) = files w"
  by (simp add: emit_def)

lemma retrieveResources_trace:
  "retrieveResources env ns (Some reg) w = (res, w') \<Longrightarrow>
   trace w' = trace w @ [EvFetch ns reg] \<and> files w' = files w"
  by (auto simp: retrieveResources_def split: prod.splits option.splits if_splits)

lemma refreshCache_trace:
  assumes "refreshCache env p ns (Some reg) w = (res, w')"
  shows "\<exists>es. trace w' = trace w @ EvFetch ns reg # es \<and> fetches es = [] \<and> lookups es = []"
proof (cases "retrieveResources env ns (Some reg) w")
  case (Pair r w1)
  then have tr: "trace w1 = trace w @ [EvFetch ns reg]"
    using retrieveResources_trace by blast
  from assms Pair tr show ?thesis
    by (auto simp: refreshCache_def Let_def split: sum.splits option.splits)
qed

lemma loadCache_trace:
  assumes "loadCache env p f w = (res, w')"
  shows "\<exists>es. trace w' = trace w @ es \<and> fetches es = [] \<and> lookups es = [] \<and> files w' = files w"
  using assms by (auto simp: loadCache_def Let_def split: sum.splits option.splits)

lemma getOrCacheResources_present:
  assumes "fault env OpOpen (cachePath dir ns) = None"
    and "fault env OpStat (cachePath dir ns) = None"
    and "files w (cachePath dir ns) = Some f"
  shows "getOrCacheResources env dir ns region d True w =
     (let p = cachePath dir ns;
          w2 = emit (EvFile OpStat p) (emit (EvFile OpOpen p) (emit (EvLookup ns) w))
      in if modTime f + d < accessTime env w ns p
         then refreshCache env p ns region w2 else loadCache env p f w2)"
  using assms by (simp add: getOrCacheResources_def Let_def accessTime_def)

text \<open>
  Claim C6, as the code has it. With the cache enabled and a persisted entry of
  modification time \<open>t0\<close>, a get at time \<open>t\<close> with TTL \<open>d\<close> fetches afresh exactly when
  \<open>t > t0 + d\<close> (the entry is expired when \<open>t0 + d\<close> is before \<open>t\<close>); when \<open>t \<le> t0 + d\<close>,
  and so at \<open>t = t0 + d\<close>, it fetches nothing, leaves the files as they are and returns
  what the persisted entry decodes to.
\<close>

theorem getOrCacheResources_staleness:
  assumes "fault env OpOpen (cachePath dir ns) = None"
    and "fault env OpStat (cachePath dir ns) = None"
    and "files w (cachePath dir ns) = Some f"
    and "t = accessTime env w ns (cachePath dir ns)"
    and "getOrCacheResources env dir ns (Some reg) d True w = (res, w')"
  shows "(modTime f + d < t \<longrightarrow> fetches (newEvents w w') = [ns])
       \<and> (t \<le> modTime f + d \<longrightarrow>
            fetches (newEvents w w') = [] \<and> files w' = files w
            \<and> (fault env OpReadAll (cachePath dir ns) = None
               \<and> fault env OpClose (cachePath dir ns) = None
               \<longrightarrow> res = jsonUnmarshal env (content f)))"
proof (intro conjI impI)
  let ?p = "cachePath dir ns"
  let ?w2 = "emit (EvFile OpStat ?p) (emit (EvFile OpOpen ?p) (emit (EvLookup ns) w))"
  have g: "getOrCacheResources env dir ns (Some reg) d True w =
     (if modTime f + d < t then refreshCache env ?p ns (Some reg) ?w2 else loadCache env ?p f ?w2)"
    using getOrCacheResources_present [OF assms(1,2,3)] assms(4) by (simp add: Let_def)
  {
    assume "modTime f + d < t"
    with g assms(5) have "refreshCache env ?p ns (Some reg) ?w2 = (res, w')" by simp
    from refreshCache_trace [OF this] obtain es where
      "trace w' = trace ?w2 @ EvFetch ns reg # es" and "fetches es = []" by blast
    then show "fetches (newEvents w w') = [ns]" by (simp add: newEvents_def)
  }
  {
    assume "t \<le> modTime f + d"
    with g assms(5) have l: "loadCache env ?p f ?w2 = (res, w')" by simp
    from loadCache_trace [OF this] obtain es where
      "trace w' = trace ?w2 @ es" and "fetches es = []" and fs: "files w' = files ?w2" by blast
    then show "fetches (newEvents w w') = []" by (simp add: newEvents_def)
    from fs show "files w' = files w" by simp
    assume "fault env OpReadAll ?p = None \<and> fault env OpClose ?p = None"
    with l show "res = jsonUnmarshal env (content f)"
      by (auto simp: loadCache_def Let_def split: sum.splits)
  }
qed

lemma cachePath_example: "cachePath ''/tmp'' ''AWS/EC2'' = ''/tmp/cache-AWS-EC2''"
  by (simp add: cachePath_def cacheFile_def strings_ReplaceAll_def)

lemma arnUnmarshal_cached:
  \<open>arnUnmarshal ''["arn:cached"]'' = Inr [arnResource ''arn:cached'']\<close>
  by (simp add: arnUnmarshal_def jsonStringArray_def)

lemma arnUnmarshal_garbage:
  "arnUnmarshal ''garbage'' = Inl (LibError ''json: cannot unmarshal'')"
  by (simp add: arnUnmarshal_def jsonStringArray_def)

lemma getOrCacheResources_fixedEnv_fresh:
  "t \<le> 100 + d \<Longrightarrow>
   getOrCacheResources (fixedEnv t) ''/tmp'' ''AWS/EC2'' region d True (persistedWorld bytes) =
   (arnUnmarshal bytes,
    \<lparr>files = [''/tmp/cache-AWS-EC2'' \<mapsto> \<lparr>content = bytes, modTime = 100\<rparr>],
     trace = [EvLookup ''AWS/EC2'', EvFile OpOpen ''/tmp/cache-AWS-EC2'',
              EvFile OpStat ''/tmp/cache-AWS-EC2'', EvFile OpReadAll ''/tmp/cache-AWS-EC2'',
              EvFile OpClose ''/tmp/cache-AWS-EC2'']\<rparr>)"
  by (simp add: getOrCacheResources_def cachePath_example Let_def emit_def persistedWorld_def
      fixedEnv_def loadCache_def split: sum.splits)

lemma getOrCacheResources_fixedEnv_stale:
  "100 + d < t \<Longrightarrow>
   getOrCacheResources (fixedEnv t) ''/tmp'' ''AWS/EC2'' (Some ''us-east-1'') d True
     (persistedWorld bytes) =
   (Inr [arnResource ''arn:fresh''],
    \<lparr>files = [''/tmp/cache-AWS-EC2'' \<mapsto> \<lparr>content = ''['' @ [CHR 0x22] @ ''arn:fresh'' @ [CHR 0x22] @ '']'', modTime = t\<rparr>],
     trace = [EvLookup ''AWS/EC2'', EvFile OpOpen ''/tmp/cache-AWS-EC2'',
              EvFile OpStat ''/tmp/cache-AWS-EC2'', EvFetch ''AWS/EC2'' ''us-east-1'',
              EvFile OpCreate ''/tmp/cache-AWS-EC2'', EvFile OpWrite ''/tmp/cache-AWS-EC2'',
              EvFile OpClose ''/tmp/cache-AWS-EC2'']\<rparr>)"
  by (simp add: getOrCacheResources_def cachePath_example Let_def emit_def persistedWorld_def
      fixedEnv_def refreshCache_def retrieveResources_def arnMarshal_def arnResource_def)

theorem getOrCacheResources_staleness_witness:
  \<open>fetches (newEvents (persistedWorld ''["arn:cached"]'')
      (snd (getOrCacheResources (fixedEnv 111) ''/tmp'' ''AWS/EC2'' (Some ''us-east-1'') 10 True
             (persistedWorld ''["arn:cached"]'')))) = [''AWS/EC2'']
   \<and> fetches (newEvents (persistedWorld ''["arn:cached"]'')
      (snd (getOrCacheResources (fixedEnv 109) ''/tmp'' ''AWS/EC2'' (Some ''us-east-1'') 10 True
             (persistedWorld ''["arn:cached"]'')))) = []
   \<and> fst (getOrCacheResources (fixedEnv 109) ''/tmp'' ''AWS/EC2'' (Some ''us-east-1'') 10 True
             (persistedWorld ''["arn:cached"]'')) = Inr [arnResource ''arn:cached'']\<close>
proof -
  let ?w = \<open>persistedWorld ''["arn:cached"]''\<close>
  let ?f = \<open>\<lparr>content = ''["arn:cached"]'', modTime = 100\<rparr>\<close>
  have f: "files ?w (cachePath ''/tmp'' ''AWS/EC2'') = Some ?f"
    by (simp add: cachePath_example persistedWorld_def)
  have a: "\<And>t op. fault (fixedEnv t) op (cachePath ''/tmp'' ''AWS/EC2'') = None"
    by (simp add: fixedEnv_def)
  have t: "\<And>t. t = accessTime (fixedEnv t) ?w ''AWS/EC2'' (cachePath ''/tmp'' ''AWS/EC2'')"
    by (simp add: accessTime_def fixedEnv_def)
  have u: "jsonUnmarshal (fixedEnv 109) (content ?f) = Inr [arnResource ''arn:cached'']"
    by (simp add: fixedEnv_def arnUnmarshal_cached)
  note stale = getOrCacheResources_staleness [OF a a f t, of 111 "''us-east-1''" 10
      "fst (getOrCacheResources (fixedEnv 111) ''/tmp'' ''AWS/EC2'' (Some ''us-east-1'') 10 True ?w)"
      "snd (getOrCacheResources (fixedEnv 111) ''/tmp'' ''AWS/EC2'' (Some ''us-east-1'') 10 True ?w)"]
  note fresh = getOrCacheResources_staleness [OF a a f t, of 109 "''us-east-1''" 10
      "fst (getOrCacheResources (fixedEnv 109) ''/tmp'' ''AWS/EC2'' (Some ''us-east-1'') 10 True ?w)"
      "snd (getOrCacheResources (fixedEnv 109) ''/tmp'' ''AWS/EC2'' (Some ''us-east-1'') 10 True ?w)"]
  from stale fresh a u show ?thesis by simp
qed

text \<open>
  The claim as stated has an access at exactly \<open>t = t0 + d\<close> refresh the entry. With the
  entry written at 100 and a TTL of 10, the access at 110 returns the persisted entry
  and fetches nothing.
\<close>

theorem getOrCacheResources_at_expiry_is_fresh:
  \<open>fst (getOrCacheResources (fixedEnv 110) ''/tmp'' ''AWS/EC2'' (Some ''us-east-1'') 10 True
          (persistedWorld ''["arn:cached"]'')) = Inr [arnResource ''arn:cached'']
   \<and> fetches (trace (snd (getOrCacheResources (fixedEnv 110) ''/tmp'' ''AWS/EC2''
          (Some ''us-east-1'') 10 True (persistedWorld ''["arn:cached"]'')))) = []\<close>
  by (simp add: getOrCacheResources_fixedEnv_fresh arnUnmarshal_cached)

text \<open>
  Claim C7, as the code has it. With the cache enabled, a persisted entry that is not
  expired and whose bytes the JSON decoder rejects: the get returns the decoder's error,
  fetches nothing and leaves the files as they are.
\<close>

theorem getOrCacheResources_corrupt:
  assumes "fault env OpOpen (cachePath dir ns) = None"
    and "fault env OpStat (cachePath dir ns) = None"
    and "fault env OpReadAll (cachePath dir ns) = None"
    and "fault env OpClose (cachePath dir ns) = None"
    and "files w (cachePath dir ns) = Some f"
    and "accessTime env w ns (cachePath dir ns) \<le> modTime f + d"
    and "jsonUnmarshal env (content f) = Inl e"
  shows "fst (getOrCacheResources env dir ns region d True w) = Inl e
       \<and> fetches (newEvents w (snd (getOrCacheResources env dir ns region d True w))) = []
       \<and> files (snd (getOrCacheResources env dir ns region d True w)) = files w"
proof -
  let ?p = "cachePath dir ns"
  let ?w2 = "emit (EvFile OpStat ?p) (emit (EvFile OpOpen ?p) (emit (EvLookup ns) w))"
  have g: "getOrCacheResources env dir ns region d True w = loadCache env ?p f ?w2"
    using getOrCacheResources_present [OF assms(1,2,5)] assms(6) by (simp add: Let_def)
  have l: "loadCache env ?p f ?w2 =
           (Inl e, emit (EvFile OpClose ?p) (emit (EvFile OpReadAll ?p) ?w2))"
    using assms(3,4,7) by (simp add: loadCache_def Let_def)
  show ?thesis unfolding g l by (simp add: newEvents_def)
qed

theorem getOrCacheResources_corrupt_witness:
  "fst (getOrCacheResources (fixedEnv 105) ''/tmp'' ''AWS/EC2'' (Some ''us-east-1'') 10 True
          (persistedWorld ''garbage'')) = Inl (LibError ''json: cannot unmarshal'')
   \<and> fetches (newEvents (persistedWorld ''garbage'')
        (snd (getOrCacheResources (fixedEnv 105) ''/tmp'' ''AWS/EC2'' (Some ''us-east-1'') 10 True
          (persistedWorld ''garbage'')))) = []
   \<and> files (snd (getOrCacheResources (fixedEnv 105) ''/tmp'' ''AWS/EC2'' (Some ''us-east-1'') 10
          True (persistedWorld ''garbage''))) = files (persistedWorld ''garbage'')"
proof -
  let ?w = "persistedWorld ''garbage''"
  let ?f = "\<lparr>content = ''garbage'', modTime = 100\<rparr>"
  have f: "files ?w (cachePath ''/tmp'' ''AWS/EC2'') = Some ?f"
    by (simp add: cachePath_example persistedWorld_def)
  have a: "\<And>op. fault (fixedEnv 105) op (cachePath ''/tmp'' ''AWS/EC2'') = None"
    by (simp add: fixedEnv_def)
  have t: "accessTime (fixedEnv 105) ?w ''AWS/EC2'' (cachePath ''/tmp'' ''AWS/EC2'') \<le> modTime ?f + 10"
    by (simp add: accessTime_def fixedEnv_def)
  have u: "jsonUnmarshal (fixedEnv 105) (content ?f) = Inl (LibError ''json: cannot unmarshal'')"
    by (simp add: fixedEnv_def arnUnmarshal_garbage)
  show ?thesis
    using getOrCacheResources_corrupt [OF a a a a f t u, of "Some ''us-east-1''"] by simp
qed

text \<open>
  The claim as stated has the corrupt entry treated as absent: a fresh fetch and no
  error. On the entry \<open>garbage\<close> the get returns the decoder's error, and the client is
  not called.
\<close>

theorem getOrCacheResources_corrupt_is_error:
  "getOrCacheResources (fixedEnv 105) ''/tmp'' ''AWS/EC2'' (Some ''us-east-1'') 10 True
          (persistedWorld ''garbage'') =
   (Inl (LibError ''json: cannot unmarshal''),
    \<lparr>files = [''/tmp/cache-AWS-EC2'' \<mapsto> \<lparr>content = ''garbage'', modTime = 100\<rparr>],
     trace = [EvLookup ''AWS/EC2'', EvFile OpOpen ''/tmp/cache-AWS-EC2'',
              EvFile OpStat ''/tmp/cache-AWS-EC2'', EvFile OpReadAll ''/tmp/cache-AWS-EC2'',
              EvFile OpClose ''/tmp/cache-AWS-EC2'']\<rparr>)"
  by (simp add: getOrCacheResources_fixedEnv_fresh arnUnmarshal_garbage)

subsection \<open>The wire codec\<close>

lemma unat_byte_of_nat: "n < 256 \<Longrightarrow> unat (of_nat n :: byte) = n"
  by (simp add: unat_of_nat)

lemma uvarintLoop_incomplete:
  "list_all continues bs \<Longrightarrow> i + length bs \<le> 10 \<Longrightarrow> uvarintLoop x s i bs = (0, 0)"
  by (induction bs arbitrary: x s i) (auto simp: continues_def MaxVarintLen64_def)

lemma uvarintLoop_complete:
  "list_all continues bs \<Longrightarrow> unat l < 128 \<Longrightarrow> i + length bs < 9 \<Longrightarrow>
   snd (uvarintLoop x s i (bs @ [l])) = int (i + length bs) + 1"
  by (induction bs arbitrary: x s i) (auto simp: continues_def MaxVarintLen64_def)

lemma PutUvarint_length_pos: "0 < length (PutUvarint n)"
  by (subst PutUvarint.simps) simp

lemma uvarintLoop_PutUvarint:
  "i + length (PutUvarint n) \<le> 9 \<Longrightarrow>
   uvarintLoop x s i (PutUvarint n @ rest) = (x + n * 2 ^ s, int (i + length (PutUvarint n)))"
proof (induction n arbitrary: x s i rule: PutUvarint.induct)
  case (1 n)
  show ?case
  proof (cases "128 \<le> n")
    case True
    have p: "PutUvarint n = of_nat (n mod 128 + 128) # PutUvarint (n div 128)"
      using True by (subst PutUvarint.simps) simp
    have u: "unat (of_nat (n mod 128 + 128) :: byte) = n mod 128 + 128"
      by (rule unat_byte_of_nat) simp
    have len: "Suc i + length (PutUvarint (n div 128)) \<le> 9"
      using "1.prems" p by simp
    have i: "i \<noteq> MaxVarintLen64" using len by (simp add: MaxVarintLen64_def)
    have u': "unat (word_of_nat (n mod 128) + 128 :: byte) = n mod 128 + 128"
      using u by simp
    have "(n mod 128 + n div 128 * 128) * 2 ^ s = n * 2 ^ s"
      by (simp only: mod_div_mult_eq)
    then have h: "n mod 128 * 2 ^ s + n div 128 * 128 * 2 ^ s = n * 2 ^ s"
      by (simp only: distrib_right)
    have "x + n mod 128 * 2 ^ s + n div 128 * 2 ^ (s + 7) =
          x + (n mod 128 * 2 ^ s + n div 128 * 128 * 2 ^ s)"
      by (simp add: power_add)
    also have "\<dots> = x + n * 2 ^ s"
      by (simp only: h)
    finally have e: "x + n mod 128 * 2 ^ s + n div 128 * 2 ^ (s + 7) = x + n * 2 ^ s" .
    show ?thesis
      using "1.IH" [OF True, of "Suc i" "x + n mod 128 * 2 ^ s" "s + 7"] len i e
      by (simp add: p u')
  next
    case False
    have p: "PutUvarint n = [of_nat n]"
      using False by (subst PutUvarint.simps) simp
    have u: "unat (of_nat n :: byte) = n"
      using False by (intro unat_byte_of_nat) simp
    from "1.prems" p have "i \<le> 8" by simp
    then show ?thesis using False by (simp add: p u MaxVarintLen64_def)
  qed
qed

lemma Uvarint_PutUvarint:
  "length (PutUvarint n) \<le> 9 \<Longrightarrow> Uvarint (PutUvarint n) = (n, int (length (PutUvarint n)))"
  using uvarintLoop_PutUvarint [of 0 n 0 0 "[]"] by (simp add: Uvarint_def)

lemma PutUvarint_shape:
  "\<exists>cs l. PutUvarint n = cs @ [l] \<and> list_all continues cs \<and> unat l < 128"
proof (induction n rule: PutUvarint.induct)
  case (1 n)
  show ?case
  proof (cases "128 \<le> n")
    case True
    have p: "PutUvarint n = of_nat (n mod 128 + 128) # PutUvarint (n div 128)"
      using True by (subst PutUvarint.simps) simp
    have u: "unat (of_nat (n mod 128 + 128) :: byte) = n mod 128 + 128"
      by (rule unat_byte_of_nat) simp
    from "1.IH" [OF True] obtain cs l where
      "PutUvarint (n div 128) = cs @ [l]" "list_all continues cs" "unat l < 128" by blast
    moreover have "continues (of_nat (n mod 128 + 128))"
      unfolding continues_def u by simp
    ultimately have "PutUvarint n = (of_nat (n mod 128 + 128) # cs) @ [l]
        \<and> list_all continues (of_nat (n mod 128 + 128) # cs) \<and> unat l < 128"
      unfolding p by simp
    then show ?thesis by blast
  next
    case False
    have p: "PutUvarint n = [] @ [of_nat n]"
      using False by (subst PutUvarint.simps) simp
    have u: "unat (of_nat n :: byte) = n"
      using False by (intro unat_byte_of_nat) simp
    show ?thesis using p u False by (intro exI [of _ "[]"] exI [of _ "of_nat n"]) simp
  qed
qed

lemma readHeader_varint:
  "list_all continues (hb @ cs) \<Longrightarrow> unat l < 128 \<Longrightarrow> length (hb @ cs) < 5 \<Longrightarrow>
   readHeader hb (cs @ l # rest) = Inr (fst (Uvarint (hb @ cs @ [l])), rest)"
proof (induction cs arbitrary: hb)
  case Nil
  then have "snd (Uvarint (hb @ [l])) = int (length hb) + 1"
    using uvarintLoop_complete [of hb l 0 0 0] by (simp add: Uvarint_def)
  then have "snd (Uvarint (hb @ [l])) \<noteq> 0" by simp
  with Nil show ?case by (auto simp: MaxVarintLen32_def split: prod.splits)
next
  case (Cons c cs)
  then have "Uvarint (hb @ [c]) = (0, 0)"
    using uvarintLoop_incomplete [of "hb @ [c]" 0 0 0] by (simp add: Uvarint_def)
  moreover have "readHeader (hb @ [c]) (cs @ l # rest) =
      Inr (fst (Uvarint ((hb @ [c]) @ cs @ [l])), rest)"
    using Cons.prems by (intro Cons.IH) simp_all
  ultimately show ?case using Cons.prems by (simp add: MaxVarintLen32_def)
qed

lemma readHeader_PutUvarint:
  assumes "length (PutUvarint n) \<le> 5"
  shows "readHeader [] (PutUvarint n @ rest) = Inr (n, rest)"
proof -
  from PutUvarint_shape obtain cs l where
    p: "PutUvarint n = cs @ [l]" and c: "list_all continues cs" and l: "unat l < 128" by blast
  from assms p have len: "length ([] @ cs) < 5" by simp
  have "readHeader [] (cs @ l # rest) = Inr (fst (Uvarint ([] @ cs @ [l])), rest)"
    using c l len by (intro readHeader_varint) simp_all
  moreover have "Uvarint (cs @ [l]) = (n, int (length (PutUvarint n)))"
    using Uvarint_PutUvarint [of n] assms p by simp
  ultimately show ?thesis by (simp add: p)
qed



lemma PutUvarint_length_le:
  "n < 128 ^ k \<Longrightarrow> 0 < k \<Longrightarrow> length (PutUvarint n) \<le> k"
proof (induction n arbitrary: k rule: PutUvarint.induct)
  case (1 n)
  show ?case
  proof (cases "128 \<le> n")
    case True
    have p: "PutUvarint n = of_nat (n mod 128 + 128) # PutUvarint (n div 128)"
      using True by (subst PutUvarint.simps) simp
    from "1.prems" True obtain k' where k: "k = Suc k'" and "0 < k'"
      by (cases k; cases "k - 1") auto
    with "1.prems" have "n div 128 < 128 ^ k'"
      by (simp add: less_mult_imp_div_less mult.commute)
    from "1.IH" [OF True this \<open>0 < k'\<close>] show ?thesis by (simp add: p k)
  next
    case False
    then have "PutUvarint n = [of_nat n]" by (subst PutUvarint.simps) simp
    with "1.prems" show ?thesis by simp
  qed
qed

lemma PutUvarint_fits: "n < 2 ^ 35 \<Longrightarrow> length (PutUvarint n) \<le> 5"
  using PutUvarint_length_le [of n 5] by simp

lemma ReadDelimited_frame:
  assumes "unmarshal body = Inr m" and "length body < 2 ^ 35"
  shows "ReadDelimited unmarshal (frame body @ rest) = ReadOK m rest"
proof -
  have "readHeader [] (PutUvarint (length body) @ body @ rest) = Inr (length body, body @ rest)"
    using assms(2) by (intro readHeader_PutUvarint PutUvarint_fits)
  then show ?thesis using assms(1) by (simp add: ReadDelimited_def frame_def ReadFull_def)
qed





lemma readRequests_frames:
  "list_all (\<lambda>b. length b < 2 ^ 35) bodies \<Longrightarrow> map unmarshal bodies = map Inr ms \<Longrightarrow>
   readRequests unmarshal acc (frames bodies @ tail) = readRequests unmarshal (acc @ ms) tail"
proof (induction bodies arbitrary: acc ms)
  case Nil
  then show ?case by (simp add: frames_def)
next
  case (Cons b bodies)
  from Cons.prems(2) obtain m ms' where ms: "ms = m # ms'" and m: "unmarshal b = Inr m"
    and rest: "map unmarshal bodies = map Inr ms'"
    by (cases ms) auto
  from Cons.prems(1) have len: "length b < 2 ^ 35" and lens: "list_all (\<lambda>b. length b < 2 ^ 35) bodies"
    by simp_all
  have "readRequests unmarshal acc (frame b @ (frames bodies @ tail)) =
        readRequests unmarshal (acc @ [m]) (frames bodies @ tail)"
    by (subst readRequests.simps) (simp add: ReadDelimited_frame [of unmarshal b m, OF m len])
  also have "\<dots> = readRequests unmarshal ((acc @ [m]) @ ms') tail"
    by (rule Cons.IH [OF lens rest])
  finally show ?case by (simp add: frames_def ms)
qed

lemma readRequests_end:
  "ReadDelimited unmarshal tail = ReadErr e \<Longrightarrow>
   readRequests unmarshal acc tail = (if e = EOF then Inr acc else Inl e)"
  by (subst readRequests.simps) simp

lemma ReadDelimited_empty: "ReadDelimited unmarshal [] = ReadErr EOF"
  by (simp add: ReadDelimited_def MaxVarintLen32_def)

lemma writeRequests_frames:
  "list_all (\<lambda>b. length b < 2 ^ 35) bodies \<Longrightarrow> map marshal reqs = map Inr bodies \<Longrightarrow>
   writeRequests marshal w reqs = Inr (w @ frames bodies)"
proof (induction reqs arbitrary: w bodies)
  case Nil
  then show ?case by (simp add: frames_def)
next
  case (Cons r reqs)
  from Cons.prems(2) obtain b bs where bs: "bodies = b # bs" and b: "marshal r = Inr b"
    and rest: "map marshal reqs = map Inr bs"
    by (cases bodies) auto
  from Cons.prems(1) bs have len: "length b < 2 ^ 35" and lens: "list_all (\<lambda>b. length b < 2 ^ 35) bs"
    by simp_all
  have "WriteDelimited marshal w r = Inr (w @ frame b)"
    using b PutUvarint_fits [OF len]
    by (simp add: WriteDelimited_def encodeLength_def frame_def MaxVarintLen32_def)
  then show ?case using Cons.IH [OF lens rest] by (simp add: bs frames_def)
qed


text \<open>
  Claim C5, as the code has it. For a batch whose requests marshal to bodies of fewer
  than \<open>2 ^ 35\<close> bytes that unmarshal to the same requests: encoding the batch gives
  the stream of the frames of the bodies, each with the minimal varint of its length,
  and decoding that stream gives the batch back. Read from the side of the bytes: a
  buffer made of such frames decodes to the batch and is encoded back byte for byte.
\<close>

theorem requests_round_trip:
  assumes "list_all (\<lambda>b. length b < 2 ^ 35) bodies"
    and "map marshal reqs = map Inr bodies"
    and "map unmarshal bodies = map Inr reqs"
  shows "requestsIntoRawData marshal reqs = Inr (frames bodies)
       \<and> rawDataIntoRequests unmarshal (frames bodies) = Inr reqs"
  using writeRequests_frames [OF assms(1,2), of "[]"]
    readRequests_frames [OF assms(1,3), of "[]" "[]"]
    readRequests_end [OF ReadDelimited_empty, of unmarshal reqs]
  by (simp add: requestsIntoRawData_def rawDataIntoRequests_def)







theorem requests_round_trip_witness:
  "requestsIntoRawData rawMarshal [[0x41], []] = Inr [0x01, 0x41, 0x00]
   \<and> rawDataIntoRequests rawUnmarshal [0x01, 0x41, 0x00] = Inr [[0x41], []]"
proof -
  have b: "list_all (\<lambda>b. length b < 2 ^ 35) [[0x41 :: byte], []]" by simp
  have m: "map rawMarshal [[0x41], []] = map Inr [[0x41], []]" by (simp add: rawMarshal_def)
  have u: "map rawUnmarshal [[0x41], []] = map Inr [[0x41], []]" by (simp add: rawUnmarshal_def)
  have f: "frames [[0x41], []] = [0x01, 0x41, 0x00]"
    by (simp add: frames_def frame_def PutUvarint.simps)
  from requests_round_trip [OF b m u] show ?thesis by (simp add: f)
qed

text \<open>
  The claim as stated has every buffer of frames the decoder accepts encoded back byte
  for byte. The two bytes \<open>0x80 0x00\<close> are a length prefix of 0 that is not minimal: the
  decoder reads one empty message from them, and the encoder writes that message as the
  single byte \<open>0x00\<close>.
\<close>

theorem requests_non_minimal_prefix:
  "rawDataIntoRequests rawUnmarshal [0x80, 0x00] = Inr [[]]
   \<and> requestsIntoRawData rawMarshal [[]] = Inr [0x00]"
  by (simp add: rawDataIntoRequests_def readRequests.simps ReadDelimited_def Uvarint_def
      ReadFull_def MaxVarintLen32_def MaxVarintLen64_def rawUnmarshal_def
      requestsIntoRawData_def WriteDelimited_def encodeLength_def rawMarshal_def PutUvarint.simps)

subsection \<open>quantileToStatistic\<close>






















subsection \<open>summaryToGauges\<close>











subsection \<open>enhanceRequests: the metric lists\<close>



lemma forEach_invariant:
  assumes "\<And>s x e s' x'. I s \<Longrightarrow> body s x = (e, s', x') \<Longrightarrow> I s'"
    and "I s"
    and "forEach body s xs = (e, s', xs')"
  shows "I s'"
  using assms(2,3)
proof (induction xs arbitrary: s e s' xs')
  case Nil
  then show ?case by simp
next
  case (Cons x xs)
  obtain e1 s1 x1 where b: "body s x = (e1, s1, x1)" by (cases "body s x") auto
  have i1: "I s1" using assms(1) Cons.prems(1) b by blast
  show ?case
  proof (cases e1)
    case (Some err)
    with Cons.prems(2) b have "s' = s1" by simp
    with i1 show ?thesis by simp
  next
    case None
    obtain e2 s2 xs2 where f: "forEach body s1 xs = (e2, s2, xs2)"
      by (cases "forEach body s1 xs") auto
    with Cons.prems(2) b None have "s' = s2" by simp
    with Cons.IH [OF i1 f] show ?thesis by simp
  qed
qed














text \<open>The example batch, with the expansion mode on and off.\<close>

lemma summaryPoint_descriptor:
  "buildCloudWatchMetricFromKeyValues (Attributes (summaryPoint ns))
     = \<lparr>Namespace = ns, MetricName = ''CPUUtilization'', Dimensions = []\<rparr>"
  by (simp add: summaryPoint_def buildCloudWatchMetricFromKeyValues_def stringKV_def strVal_def)

lemma summaryPoint_statistic:
  "attrValue (Attributes (summaryPoint ns)) ''Statistic'' = []"
  "attrValue (Attributes (summaryPoint ns)) ''statistic'' = []"
  by (simp_all add: summaryPoint_def stringKV_def strVal_def)


lemma run_expanded:
  "snd (snd (enhanceRequests (exampleConfig True (fixedEnv 0)) rdsKnown exampleBatch)) =
     [\<lparr>ResourceMetrics =
         [\<lparr>Resource = None,
           ScopeMetrics =
             [\<lparr>Metrics =
                 summaryToGauges arm64_int joinedName
                   \<lparr>Namespace = ''AWS/EC2'', MetricName = ''CPUUtilization'', Dimensions = []\<rparr>
                   (summaryPoint ''AWS/EC2'')
                   (labelsOf ''AWS/EC2'' (Some (arnResource ''arn:fresh''))) defaultYACEStats
                 @ summaryToGauges arm64_int joinedName
                   \<lparr>Namespace = ''AWS/RDS'', MetricName = ''CPUUtilization'', Dimensions = []\<rparr>
                   (summaryPoint ''AWS/RDS'') (labelsOf ''AWS/RDS'' None) defaultYACEStats
                 @ summaryToGauges arm64_int joinedName
                   \<lparr>Namespace = ''AWS/EC2'', MetricName = ''CPUUtilization'', Dimensions = []\<rparr>
                   (summaryPoint ''AWS/EC2'')
                   (labelsOf ''AWS/EC2'' (Some (arnResource ''arn:fresh''))) defaultYACEStats
                 @ [\<lparr>Name = ''up'', Data = Metric_Gauge []\<rparr>]\<rparr>]\<rparr>]\<rparr>]"
  by (simp add: enhanceRequests_def enhanceRequest_def enhanceResourceMetrics_def enhanceScope_def
      enhanceMetric_def enhanceDataPoint_def summaryPoint_descriptor ensureResources_def
      ensureAssociator_def exampleBatch_def extractResourceAttributes_def
      exampleConfig_def fixedEnv_def rdsKnown_def knownNamespaces_def
      getOrCacheResources_def retrieveResources_def emit_def Let_def firstResource_def labelsOf_def)

lemma run_in_place:
  "snd (snd (enhanceRequests (exampleConfig False (fixedEnv 0)) rdsKnown exampleBatch)) =
     [\<lparr>ResourceMetrics =
         [\<lparr>Resource = None,
           ScopeMetrics =
             [\<lparr>Metrics =
                 [\<lparr>Name = joinedName ''AWS/EC2'' ''CPUUtilization'' [],
                   Data = Metric_Summary
                     [(summaryPoint ''AWS/EC2'')
                        \<lparr>Attributes := labelsOf ''AWS/EC2'' (Some (arnResource ''arn:fresh''))\<rparr>,
                      (summaryPoint ''AWS/RDS'')\<lparr>Attributes := labelsOf ''AWS/RDS'' None\<rparr>,
                      (summaryPoint ''AWS/EC2'')
                        \<lparr>Attributes := labelsOf ''AWS/EC2'' (Some (arnResource ''arn:fresh''))\<rparr>]\<rparr>,
                  \<lparr>Name = ''up'', Data = Metric_Gauge []\<rparr>]\<rparr>]\<rparr>]\<rparr>]"
  by (simp add: enhanceRequests_def enhanceRequest_def enhanceResourceMetrics_def enhanceScope_def
      enhanceMetric_def enhanceDataPoint_def summaryPoint_descriptor ensureResources_def
      ensureAssociator_def exampleBatch_def extractResourceAttributes_def
      exampleConfig_def fixedEnv_def rdsKnown_def knownNamespaces_def
      getOrCacheResources_def retrieveResources_def emit_def Let_def firstResource_def labelsOf_def
      summaryPoint_statistic)



subsection \<open>enhanceRequests: the in-memory resource map\<close>

lemma retrieveResources_events:
  "retrieveResources env ns region w = (res, w') \<Longrightarrow>
   \<exists>es. trace w' = trace w @ es \<and> lookups es = [] \<and> set (fetches es) \<subseteq> {ns}"
  by (cases region)
     (auto simp: retrieveResources_def split: prod.splits option.splits if_splits)

lemma refreshCache_events:
  assumes "refreshCache env p ns region w = (res, w')"
  shows "\<exists>es. trace w' = trace w @ es \<and> lookups es = [] \<and> set (fetches es) \<subseteq> {ns}"
proof -
  obtain r w1 where rr: "retrieveResources env ns region w = (r, w1)"
    by (cases "retrieveResources env ns region w") auto
  from retrieveResources_events [OF rr] obtain es where
    es: "trace w1 = trace w @ es" "lookups es = []" "set (fetches es) \<subseteq> {ns}" by blast
  from assms rr have "\<exists>es'. trace w' = trace w1 @ es' \<and> lookups es' = [] \<and> fetches es' = []"
    by (auto simp: refreshCache_def Let_def split: sum.splits option.splits)
  then obtain es' where "trace w' = trace w1 @ es'" "lookups es' = []" "fetches es' = []" by blast
  with es have "trace w' = trace w @ (es @ es') \<and> lookups (es @ es') = []
      \<and> set (fetches (es @ es')) \<subseteq> {ns}" by simp
  then show ?thesis by blast
qed

lemma getOrCacheResources_events:
  assumes "getOrCacheResources env dir ns region d en w = (res, w')"
  shows "\<exists>es. trace w' = trace w @ es \<and> lookups es = [ns] \<and> set (fetches es) \<subseteq> {ns}"
proof -
  let ?w0 = "emit (EvLookup ns) w"
  have "\<exists>es. trace w' = trace ?w0 @ es \<and> lookups es = [] \<and> set (fetches es) \<subseteq> {ns}"
  proof (cases en)
    case False
    with assms have "retrieveResources env ns region ?w0 = (res, w')"
      by (simp add: getOrCacheResources_def Let_def)
    then show ?thesis by (rule retrieveResources_events)
  next
    case True
    let ?p = "cachePath dir ns"
    let ?w1 = "emit (EvFile OpOpen ?p) ?w0"
    let ?w2 = "emit (EvFile OpStat ?p) ?w1"
    have t1: "trace ?w1 = trace ?w0 @ [EvFile OpOpen ?p]"
      and t2: "trace ?w2 = trace ?w0 @ [EvFile OpOpen ?p, EvFile OpStat ?p]" by simp_all
    consider (err) "w' = ?w1 \<or> w' = ?w2"
      | (refresh1) "refreshCache env ?p ns region ?w1 = (res, w')"
      | (refresh2) "refreshCache env ?p ns region ?w2 = (res, w')"
      | (load) f where "loadCache env ?p f ?w2 = (res, w')"
      using assms True
      by (auto simp: getOrCacheResources_def Let_def split: option.splits if_splits)
    then show ?thesis
    proof cases
      case err
      then show ?thesis
      proof
        assume "w' = ?w1"
        then have "trace w' = trace ?w0 @ [EvFile OpOpen ?p]
            \<and> lookups [EvFile OpOpen ?p] = [] \<and> set (fetches [EvFile OpOpen ?p]) \<subseteq> {ns}"
          by simp
        then show ?thesis by blast
      next
        assume "w' = ?w2"
        then have "trace w' = trace ?w0 @ [EvFile OpOpen ?p, EvFile OpStat ?p]
            \<and> lookups [EvFile OpOpen ?p, EvFile OpStat ?p] = []
            \<and> set (fetches [EvFile OpOpen ?p, EvFile OpStat ?p]) \<subseteq> {ns}"
          by simp
        then show ?thesis by blast
      qed
    next
      case refresh1
      from refreshCache_events [OF this] obtain es where
        "trace w' = trace ?w1 @ es" "lookups es = []" "set (fetches es) \<subseteq> {ns}" by blast
      then have "trace w' = trace ?w0 @ (EvFile OpOpen ?p # es)
          \<and> lookups (EvFile OpOpen ?p # es) = [] \<and> set (fetches (EvFile OpOpen ?p # es)) \<subseteq> {ns}"
        by simp
      then show ?thesis by blast
    next
      case refresh2
      from refreshCache_events [OF this] obtain es where
        "trace w' = trace ?w2 @ es" "lookups es = []" "set (fetches es) \<subseteq> {ns}" by blast
      then have "trace w' = trace ?w0 @ (EvFile OpOpen ?p # EvFile OpStat ?p # es)
          \<and> lookups (EvFile OpOpen ?p # EvFile OpStat ?p # es) = []
          \<and> set (fetches (EvFile OpOpen ?p # EvFile OpStat ?p # es)) \<subseteq> {ns}"
        by simp
      then show ?thesis by blast
    next
      case (load f)
      from loadCache_trace [OF this] obtain es where
        "trace w' = trace ?w2 @ es" "fetches es = []" "lookups es = []" by blast
      then have "trace w' = trace ?w0 @ (EvFile OpOpen ?p # EvFile OpStat ?p # es)
          \<and> lookups (EvFile OpOpen ?p # EvFile OpStat ?p # es) = []
          \<and> set (fetches (EvFile OpOpen ?p # EvFile OpStat ?p # es)) \<subseteq> {ns}"
        by simp
      then show ?thesis by blast
    qed
  qed
  then obtain es where "trace w' = trace ?w0 @ es" "lookups es = []" "set (fetches es) \<subseteq> {ns}"
    by blast
  then have "trace w' = trace w @ (EvLookup ns # es) \<and> lookups (EvLookup ns # es) = [ns]
      \<and> set (fetches (EvLookup ns # es)) \<subseteq> {ns}" by simp
  then show ?thesis by blast
qed

text \<open>The state a flow carries.\<close>

lemma ensureResources_cases:
  obtains (hit) rs where "resourceCache st ns = Some rs" "ensureResources cfg ns st = Proceed st"
  | (miss) res w where "resourceCache st ns = None"
      "getOrCacheResources (libCacheEnv cfg) (cfgFileCachePath cfg) ns (cfgRegion cfg)
         (cfgFileCacheExpiration cfg) (cfgFileCacheEnabled cfg) (outside st) = (res, w)"
      "ensureResources cfg ns st = Continue (st\<lparr>outside := w\<rparr>)
       \<or> (\<exists>err. ensureResources cfg ns st = Return err (st\<lparr>outside := w\<rparr>))
       \<or> (\<exists>rs. ensureResources cfg ns st =
                 Proceed (st\<lparr>outside := w, resourceCache := (resourceCache st)(ns \<mapsto> rs)\<rparr>))"
proof (cases "resourceCache st ns")
  case (Some rs)
  then have "ensureResources cfg ns st = Proceed st" by (simp add: ensureResources_def)
  with Some show ?thesis by (rule hit)
next
  case None
  obtain res w where g:
    "getOrCacheResources (libCacheEnv cfg) (cfgFileCachePath cfg) ns (cfgRegion cfg)
       (cfgFileCacheExpiration cfg) (cfgFileCacheEnabled cfg) (outside st) = (res, w)"
    by (cases "getOrCacheResources (libCacheEnv cfg) (cfgFileCachePath cfg) ns (cfgRegion cfg)
       (cfgFileCacheExpiration cfg) (cfgFileCacheEnabled cfg) (outside st)") auto
  from None g have
    "ensureResources cfg ns st = Continue (st\<lparr>outside := w\<rparr>)
       \<or> (\<exists>err. ensureResources cfg ns st = Return err (st\<lparr>outside := w\<rparr>))
       \<or> (\<exists>rs. ensureResources cfg ns st =
                 Proceed (st\<lparr>outside := w, resourceCache := (resourceCache st)(ns \<mapsto> rs)\<rparr>))"
    by (cases res) (auto simp: ensureResources_def)
  with None g show ?thesis by (rule miss)
qed

text \<open>
  The invariant of a run for a namespace that is in the map: its entry stays as it is,
  and what the run has added to the trace is quiet for it.
\<close>

lemma ensureResources_keeps:
  assumes rc: "resourceCache st ns = Some rs"
    and tr: "trace (outside st) = t0 @ es" and q: "quietFor ns es"
    and st1: "ensureResources cfg ns' st = Proceed st1 \<or> ensureResources cfg ns' st = Continue st1
              \<or> ensureResources cfg ns' st = Return err st1"
  shows "resourceCache st1 ns = Some rs
       \<and> (\<exists>es1. trace (outside st1) = t0 @ es1 \<and> quietFor ns es1)
       \<and> associatorCache st1 = associatorCache st"
proof (cases rule: ensureResources_cases [of st ns' cfg])
  case (hit rs')
  with st1 have "st1 = st" by auto
  with rc tr q show ?thesis by auto
next
  case (miss res w)
  with rc have ne: "ns' \<noteq> ns" by auto
  from getOrCacheResources_events [OF miss(2)] obtain es' where
    es': "trace w = trace (outside st) @ es'" "lookups es' = [ns']" "set (fetches es') \<subseteq> {ns'}"
    by blast
  with ne q have "quietFor ns (es @ es')" by (auto simp: quietFor_def)
  moreover from es' tr have "trace w = t0 @ (es @ es')" by simp
  moreover from miss(3) st1 have
    "st1 = st\<lparr>outside := w\<rparr> \<or> (\<exists>x. st1 = st\<lparr>outside := w, resourceCache := (resourceCache st)(ns' \<mapsto> x)\<rparr>)"
    by auto
  ultimately show ?thesis using rc ne by auto
qed

lemma ensureAssociator_keeps:
  "ensureAssociator cfg svc ns st = (asc, st') \<Longrightarrow>
   resourceCache st' = resourceCache st \<and> outside st' = outside st"
  by (auto simp: ensureAssociator_def Let_def split: option.splits)

lemma enhanceDataPoint_state:
  assumes "enhanceDataPoint cfg a r ((st, nm), name) dp = (e, ((st', nm'), name'), dp')"
  shows "st' = st
       \<or> ensureResources cfg (namespaceOf dp) st = Continue st'
       \<or> (\<exists>err. ensureResources cfg (namespaceOf dp) st = Return err st')
       \<or> (\<exists>st1 svc asc. ensureResources cfg (namespaceOf dp) st = Proceed st1
             \<and> ensureAssociator cfg svc (namespaceOf dp) st1 = (asc, st'))"
proof (cases "metricNameOf dp = [] \<or> namespaceOf dp = []")
  case True
  with assms show ?thesis
    by (auto simp: enhanceDataPoint_def namespaceOf_def metricNameOf_def Let_def)
next
  case False
  show ?thesis
  proof (cases "libGetService cfg (namespaceOf dp)")
    case None
    with assms False show ?thesis
      by (auto simp: enhanceDataPoint_def namespaceOf_def metricNameOf_def Let_def)
  next
    case (Some svc)
    show ?thesis
    proof (cases "ensureResources cfg (namespaceOf dp) st")
      case (Continue st1)
      with assms False Some show ?thesis
        by (auto simp: enhanceDataPoint_def namespaceOf_def metricNameOf_def Let_def)
    next
      case (Return err st1)
      with assms False Some show ?thesis
        by (auto simp: enhanceDataPoint_def namespaceOf_def metricNameOf_def Let_def)
    next
      case (Proceed st1)
      obtain asc st2 where ea: "ensureAssociator cfg svc (namespaceOf dp) st1 = (asc, st2)"
        by (cases "ensureAssociator cfg svc (namespaceOf dp) st1") auto
      with assms False Some Proceed have "st' = st2"
        by (auto simp: enhanceDataPoint_def namespaceOf_def metricNameOf_def Let_def
            split: prod.splits if_splits)
      with ea Proceed show ?thesis by blast
    qed
  qed
qed

lemma enhanceDataPoint_keeps:
  assumes rc: "resourceCache st ns = Some rs"
    and tr: "trace (outside st) = t0 @ es" and q: "quietFor ns es"
    and run: "enhanceDataPoint cfg a r ((st, nm), name) dp = (e, ((st', nm'), name'), dp')"
  shows "resourceCache st' ns = Some rs \<and> (\<exists>es1. trace (outside st') = t0 @ es1 \<and> quietFor ns es1)"
proof -
  let ?ns' = "namespaceOf dp"
  from enhanceDataPoint_state [OF run]
  consider (same) "st' = st"
    | (cont) "ensureResources cfg ?ns' st = Continue st'"
    | (ret) err where "ensureResources cfg ?ns' st = Return err st'"
    | (go) st1 svc asc where "ensureResources cfg ?ns' st = Proceed st1"
        "ensureAssociator cfg svc ?ns' st1 = (asc, st')"
    by blast
  then show ?thesis
  proof cases
    case same
    with rc tr q show ?thesis by auto
  next
    case cont
    with ensureResources_keeps [OF rc tr q, of cfg ?ns' st'] show ?thesis by auto
  next
    case (ret err)
    with ensureResources_keeps [OF rc tr q, of cfg ?ns' st' err] show ?thesis by auto
  next
    case (go st1 svc asc)
    with ensureResources_keeps [OF rc tr q, of cfg ?ns' st1] have
      k: "resourceCache st1 ns = Some rs" "\<exists>es1. trace (outside st1) = t0 @ es1 \<and> quietFor ns es1"
      by auto
    with ensureAssociator_keeps [OF go(2)] show ?thesis by simp
  qed
qed

lemma enhanceMetric_keeps:
  assumes "keeps ns rs t0 (fst s)" and "enhanceMetric cfg a r s m = (e, s', m')"
  shows "keeps ns rs t0 (fst s')"
proof (cases "Data m")
  case (Metric_Summary dps)
  obtain e1 s1 n1 dps1 where
    f: "forEach (enhanceDataPoint cfg a r) (s, Name m) dps = (e1, (s1, n1), dps1)"
    by (cases "forEach (enhanceDataPoint cfg a r) (s, Name m) dps") auto
  have step: "keeps ns rs t0 (fst (fst z'))"
    if "keeps ns rs t0 (fst (fst z))" "enhanceDataPoint cfg a r z dp = (x, z', dp')"
    for z dp x z' dp'
  proof -
    obtain st nm name where z: "z = ((st, nm), name)" by (cases z) auto
    obtain st' nm' name' where z': "z' = ((st', nm'), name')" by (cases z') auto
    from that(1) z obtain es where "resourceCache st ns = Some rs"
      "trace (outside st) = t0 @ es" "quietFor ns es" by (auto simp: keeps_def)
    from enhanceDataPoint_keeps [OF this that(2) [unfolded z z']] show ?thesis
      by (simp add: keeps_def z')
  qed
  have "keeps ns rs t0 (fst (fst (s1, n1)))"
    by (rule forEach_invariant [where I = "\<lambda>z. keeps ns rs t0 (fst (fst z))", OF step _ f])
       (use assms(1) in simp_all)
  moreover from assms(2) Metric_Summary f have "s' = s1" by (simp add: enhanceMetric_def)
  ultimately show ?thesis by simp
next
  case (Metric_Gauge x)
  with assms show ?thesis by (auto simp: enhanceMetric_def split: prod.splits if_splits)
next
  case OtherData
  with assms show ?thesis by (auto simp: enhanceMetric_def split: prod.splits if_splits)
qed

lemma enhanceScope_keeps:
  assumes "keeps ns rs t0 st" and "enhanceScope cfg a r st sm = (e, st', sm')"
  shows "keeps ns rs t0 st'"
proof -
  obtain e1 st1 nm1 ms1 where
    f: "forEach (enhanceMetric cfg a r) (st, []) (Metrics sm) = (e1, (st1, nm1), ms1)"
    by (cases "forEach (enhanceMetric cfg a r) (st, []) (Metrics sm)") auto
  have "keeps ns rs t0 (fst (st1, nm1))"
    by (rule forEach_invariant [where I = "\<lambda>z. keeps ns rs t0 (fst z)", OF enhanceMetric_keeps _ f])
       (use assms(1) in simp_all)
  moreover from assms(2) f have "st' = st1"
    by (cases e1) (simp_all add: enhanceScope_def split: if_splits)
  ultimately show ?thesis by simp
qed

lemma enhanceRequests_keeps:
  assumes "keeps ns rs t0 st" and "enhanceRequests cfg st reqs = (e, st', reqs')"
  shows "keeps ns rs t0 st'"
proof -
  have rm: "keeps ns rs t0 z'"
    if "keeps ns rs t0 z" "enhanceResourceMetrics cfg z rm = (x, z', rm')" for z rm x z' rm'
  proof -
    obtain a r where x: "extractResourceAttributes rm = (a, r)"
      by (cases "extractResourceAttributes rm") auto
    define r' where "r' = (if r = [] then (case cfgRegion cfg of None \<Rightarrow> r | Some y \<Rightarrow> y) else r)"
    obtain e1 s1 sms1 where f: "forEach (enhanceScope cfg a r') z (ScopeMetrics rm) = (e1, s1, sms1)"
      by (cases "forEach (enhanceScope cfg a r') z (ScopeMetrics rm)") auto
    have "keeps ns rs t0 s1"
      by (rule forEach_invariant [where I = "keeps ns rs t0", OF enhanceScope_keeps that(1) f])
    moreover from that(2) x f have "z' = s1"
      by (simp add: enhanceResourceMetrics_def Let_def r'_def)
    ultimately show ?thesis by simp
  qed
  have rq: "keeps ns rs t0 z'"
    if "keeps ns rs t0 z" "enhanceRequest cfg z req = (x, z', req')" for z req x z' req'
  proof -
    obtain e1 s1 rms1 where
      f: "forEach (enhanceResourceMetrics cfg) z (ResourceMetrics req) = (e1, s1, rms1)"
      by (cases "forEach (enhanceResourceMetrics cfg) z (ResourceMetrics req)") auto
    have "keeps ns rs t0 s1"
      by (rule forEach_invariant [where I = "keeps ns rs t0", OF rm that(1) f])
    moreover from that(2) f have "z' = s1" by (simp add: enhanceRequest_def)
    ultimately show ?thesis by simp
  qed
  show ?thesis
    by (rule forEach_invariant [where I = "keeps ns rs t0", OF rq assms(1)
          assms(2) [unfolded enhanceRequests_def]])
qed

lemma newEvents_append: "trace w' = trace w @ es \<Longrightarrow> newEvents w w' = es"
  by (simp add: newEvents_def)

lemma stateAfter_enhanceDataPoint:
  "stateAfter (enhanceDataPoint cfg a r ((st, nm), name) dp) =
     (if metricNameOf dp = [] \<or> namespaceOf dp = [] then st
      else case libGetService cfg (namespaceOf dp) of
             None \<Rightarrow> st
           | Some svc \<Rightarrow>
               (case ensureResources cfg (namespaceOf dp) st of
                  Continue st1 \<Rightarrow> st1
                | Return err st1 \<Rightarrow> st1
                | Proceed st1 \<Rightarrow> snd (ensureAssociator cfg svc (namespaceOf dp) st1)))"
  by (simp add: enhanceDataPoint_def stateAfter_def namespaceOf_def metricNameOf_def Let_def
      split: option.splits flow.splits prod.splits)

lemma ensureAssociator_snd:
  "resourceCache (snd (ensureAssociator cfg svc ns st)) = resourceCache st"
  "outside (snd (ensureAssociator cfg svc ns st)) = outside st"
  by (simp_all add: ensureAssociator_def Let_def split: option.splits)

lemma ensureResources_miss:
  assumes "resourceCache st ns = None" and "fetchFor cfg ns st = (res, w)"
  shows "ensureResources cfg ns st =
           (case res of
              Inl err \<Rightarrow>
                if isPanic err then Return err (st\<lparr>outside := w\<rparr>)
                else if err \<noteq> ErrExpectedToFindResources
                then (if cfgContinueOnResourceFailure cfg then Continue (st\<lparr>outside := w\<rparr>)
                      else Return err (st\<lparr>outside := w\<rparr>))
                else Proceed (st\<lparr>outside := w, resourceCache := (resourceCache st)(ns \<mapsto> [])\<rparr>)
            | Inr rs \<Rightarrow> Proceed (st\<lparr>outside := w, resourceCache := (resourceCache st)(ns \<mapsto> rs)\<rparr>))"
  using assms by (simp add: ensureResources_def fetchFor_def split: sum.splits)

lemma reachesFetch_outside:
  assumes "reachesFetch cfg st dp" and "fetchFor cfg (namespaceOf dp) st = (res, w)"
  shows "outside (stateAfter (enhanceDataPoint cfg a r ((st, nm), name) dp)) = w"
proof -
  from assms(1) obtain svc where svc: "libGetService cfg (namespaceOf dp) = Some svc"
    and ne: "metricNameOf dp \<noteq> []" "namespaceOf dp \<noteq> []"
    and none: "resourceCache st (namespaceOf dp) = None"
    by (auto simp: reachesFetch_def)
  show ?thesis
    by (cases res)
       (simp_all add: stateAfter_enhanceDataPoint svc ne ensureResources_miss [OF none assms(2)]
          ensureAssociator_snd)
qed

lemma reachesFetch_lookups:
  assumes "reachesFetch cfg st dp"
  shows "lookups (newEvents (outside st)
           (outside (stateAfter (enhanceDataPoint cfg a r ((st, nm), name) dp)))) = [namespaceOf dp]"
proof -
  obtain res w where f: "fetchFor cfg (namespaceOf dp) st = (res, w)"
    by (cases "fetchFor cfg (namespaceOf dp) st") auto
  from getOrCacheResources_events [OF f [unfolded fetchFor_def]] obtain es where
    "trace w = trace (outside st) @ es" "lookups es = [namespaceOf dp]" by blast
  then show ?thesis
    by (simp add: reachesFetch_outside [OF assms f] newEvents_append)
qed

lemma reachesFetch_fetches:
  assumes "reachesFetch cfg st dp" and "\<not> cfgFileCacheEnabled cfg" and "cfgRegion cfg = Some reg"
  shows "fetches (newEvents (outside st)
           (outside (stateAfter (enhanceDataPoint cfg a r ((st, nm), name) dp)))) = [namespaceOf dp]"
proof -
  obtain res w where f: "fetchFor cfg (namespaceOf dp) st = (res, w)"
    by (cases "fetchFor cfg (namespaceOf dp) st") auto
  then have "trace w = trace (outside st) @ [EvLookup (namespaceOf dp), EvFetch (namespaceOf dp) reg]"
    using assms(2,3)
    by (auto simp: fetchFor_def getOrCacheResources_def retrieveResources_def Let_def
        split: prod.splits option.splits if_splits)
  then show ?thesis
    by (simp add: reachesFetch_outside [OF assms(1) f] newEvents_append)
qed

lemma skipped_step:
  assumes "reachesFetch cfg st dp" and "fetchFor cfg (namespaceOf dp) st = (Inl err, w)"
    and "skippedFailure cfg err"
  shows "enhanceDataPoint cfg a r ((st, nm), name) dp = (None, ((st\<lparr>outside := w\<rparr>, nm), name), dp)"
proof -
  from assms(1) obtain svc where svc: "libGetService cfg (namespaceOf dp) = Some svc"
    and ne: "metricNameOf dp \<noteq> []" "namespaceOf dp \<noteq> []"
    and none: "resourceCache st (namespaceOf dp) = None"
    by (auto simp: reachesFetch_def)
  from ensureResources_miss [OF none assms(2)] assms(3)
  have "ensureResources cfg (namespaceOf dp) st = Continue (st\<lparr>outside := w\<rparr>)"
    by (simp add: skippedFailure_def)
  with svc ne show ?thesis
    by (simp add: enhanceDataPoint_def namespaceOf_def metricNameOf_def Let_def)
qed

lemma absent_stays:
  assumes "resourceCache st ns = None" and "namespaceOf dp \<noteq> ns"
  shows "resourceCache (stateAfter (enhanceDataPoint cfg a r ((st, nm), name) dp)) ns = None"
proof -
  have "resourceCache st1 ns = None"
    if "ensureResources cfg (namespaceOf dp) st = Proceed st1
        \<or> ensureResources cfg (namespaceOf dp) st = Continue st1
        \<or> ensureResources cfg (namespaceOf dp) st = Return err st1" for st1 err
    using that assms
    by (cases rule: ensureResources_cases [of st "namespaceOf dp" cfg]) auto
  then show ?thesis
    using assms(1)
    by (auto simp: stateAfter_enhanceDataPoint ensureAssociator_snd
        split: option.splits flow.splits)
qed

lemma present_step:
  assumes "resourceCache st ns = Some rs"
  shows "resourceCache (stateAfter (enhanceDataPoint cfg a r ((st, nm), name) dp)) ns = Some rs
       \<and> quietFor ns (newEvents (outside st)
           (outside (stateAfter (enhanceDataPoint cfg a r ((st, nm), name) dp))))"
proof -
  obtain e st' nm' name' dp' where
    run: "enhanceDataPoint cfg a r ((st, nm), name) dp = (e, ((st', nm'), name'), dp')"
    by (cases "enhanceDataPoint cfg a r ((st, nm), name) dp") auto
  have "quietFor ns []" by (simp add: quietFor_def)
  from enhanceDataPoint_keeps [OF assms _ this run, of "trace (outside st)"]
  obtain es where "resourceCache st' ns = Some rs" "trace (outside st') = trace (outside st) @ es"
    "quietFor ns es" by auto
  then show ?thesis by (simp add: run stateAfter_def newEvents_append)
qed

lemma present_run:
  assumes "resourceCache st ns = Some rs"
  shows "resourceCache (fst (snd (enhanceRequests cfg st reqs))) ns = Some rs
       \<and> quietFor ns (newEvents (outside st) (outside (fst (snd (enhanceRequests cfg st reqs)))))"
proof -
  obtain e st' reqs' where run: "enhanceRequests cfg st reqs = (e, st', reqs')"
    by (cases "enhanceRequests cfg st reqs") auto
  have "keeps ns rs (trace (outside st)) st" using assms by (simp add: keeps_def quietFor_def)
  from enhanceRequests_keeps [OF this run] obtain es where
    "resourceCache st' ns = Some rs" "trace (outside st') = trace (outside st) @ es" "quietFor ns es"
    by (auto simp: keeps_def)
  then show ?thesis by (simp add: run newEvents_append)
qed

text \<open>The example batch with a client that fails.\<close>

lemma summaryPoint_names [simp]:
  "namespaceOf (summaryPoint ns) = ns" "metricNameOf (summaryPoint ns) = ''CPUUtilization''"
  by (simp_all add: namespaceOf_def metricNameOf_def summaryPoint_descriptor)

lemma failing_fetch:
  "fetchFor (exampleConfig False failingEnv) ''AWS/EC2'' rdsKnown
     = (Inl (LibError ''throttled''),
        \<lparr>files = Map.empty, trace = [EvLookup ''AWS/EC2'', EvFetch ''AWS/EC2'' ''eu-west-1'']\<rparr>)"
  by (simp add: fetchFor_def exampleConfig_def failingEnv_def fixedEnv_def rdsKnown_def
      getOrCacheResources_def retrieveResources_def emit_def Let_def)

lemma reaches: "reachesFetch (exampleConfig False failingEnv) rdsKnown (summaryPoint ''AWS/EC2'')"
  by (simp add: reachesFetch_def exampleConfig_def knownNamespaces_def rdsKnown_def)

lemma skipped: "skippedFailure (exampleConfig False failingEnv) (LibError ''throttled'')"
  by (simp add: skippedFailure_def exampleConfig_def)

lemma run_trace:
  "trace (outside (fst (snd (enhanceRequests (exampleConfig False failingEnv) rdsKnown exampleBatch))))
   = [EvLookup ''AWS/EC2'', EvFetch ''AWS/EC2'' ''eu-west-1'',
      EvLookup ''AWS/EC2'', EvFetch ''AWS/EC2'' ''eu-west-1'']"
  by (simp add: enhanceRequests_def enhanceRequest_def enhanceResourceMetrics_def enhanceScope_def
      enhanceMetric_def enhanceDataPoint_def summaryPoint_descriptor ensureResources_def
      ensureAssociator_def exampleBatch_def extractResourceAttributes_def
      exampleConfig_def failingEnv_def fixedEnv_def rdsKnown_def knownNamespaces_def
      getOrCacheResources_def retrieveResources_def emit_def Let_def firstResource_def)

text \<open>
  Claim C10. During a call of \<open>enhanceRequests\<close>, and at every data point of it, a
  namespace that is in the map \<open>resourceCache\<close> (with any list of resources, the empty
  one included) keeps its entry, and the call makes no call of \<open>getOrCacheResources\<close> and
  no call of the client for it: the expiration is never looked at. When the call for
  the namespace of a data point fails with an error that the policy
  \<^verbatim>\<open>continueOnResourceFailure\<close> skips, the data point leaves the maps, the new metrics, the
  name and itself as they were, so the namespace is still missing, and a data point of
  the same namespace that comes next calls \<open>getOrCacheResources\<close> again. A data point
  that reaches the block with its namespace missing calls \<open>getOrCacheResources\<close> once
  (and the client once when the file cache is off), and a data point of another
  namespace leaves a missing namespace missing.
\<close>

theorem resourceCache_entries:
  fixes cfg :: "('svc, 'asc) config"
  shows "(resourceCache st ns = Some rs \<longrightarrow>
            resourceCache (fst (snd (enhanceRequests cfg st reqs))) ns = Some rs
          \<and> quietFor ns (newEvents (outside st) (outside (fst (snd (enhanceRequests cfg st reqs)))))
          \<and> resourceCache (stateAfter (enhanceDataPoint cfg a r ((st, nm), name) dp)) ns = Some rs
          \<and> quietFor ns (newEvents (outside st)
                (outside (stateAfter (enhanceDataPoint cfg a r ((st, nm), name) dp)))))
       \<and> (reachesFetch cfg su dq \<and> fetchFor cfg (namespaceOf dq) su = (Inl err, w)
            \<and> skippedFailure cfg err \<longrightarrow>
            enhanceDataPoint cfg a r ((su, nm), name) dq = (None, ((su\<lparr>outside := w\<rparr>, nm), name), dq)
          \<and> (namespaceOf dq' = namespaceOf dq \<and> metricNameOf dq' \<noteq> [] \<longrightarrow>
               lookups (newEvents w
                 (outside (stateAfter (enhanceDataPoint cfg a' r' ((su\<lparr>outside := w\<rparr>, nm'), name') dq'))))
               = [namespaceOf dq]))
       \<and> (reachesFetch cfg su dq \<longrightarrow>
            lookups (newEvents (outside su)
              (outside (stateAfter (enhanceDataPoint cfg a r ((su, nm), name) dq)))) = [namespaceOf dq]
          \<and> (\<not> cfgFileCacheEnabled cfg \<and> cfgRegion cfg \<noteq> None \<longrightarrow>
               fetches (newEvents (outside su)
                 (outside (stateAfter (enhanceDataPoint cfg a r ((su, nm), name) dq)))) = [namespaceOf dq]))
       \<and> (resourceCache su ns' = None \<and> namespaceOf dq \<noteq> ns' \<longrightarrow>
            resourceCache (stateAfter (enhanceDataPoint cfg a r ((su, nm), name) dq)) ns' = None)"
proof (intro conjI impI)
  assume "resourceCache st ns = Some rs"
  from present_run [OF this] present_step [OF this]
  show "resourceCache (fst (snd (enhanceRequests cfg st reqs))) ns = Some rs"
    and "quietFor ns (newEvents (outside st) (outside (fst (snd (enhanceRequests cfg st reqs)))))"
    and "resourceCache (stateAfter (enhanceDataPoint cfg a r ((st, nm), name) dp)) ns = Some rs"
    and "quietFor ns (newEvents (outside st)
           (outside (stateAfter (enhanceDataPoint cfg a r ((st, nm), name) dp))))"
    by blast+
next
  assume h: "reachesFetch cfg su dq \<and> fetchFor cfg (namespaceOf dq) su = (Inl err, w)
      \<and> skippedFailure cfg err"
  then show "enhanceDataPoint cfg a r ((su, nm), name) dq
      = (None, ((su\<lparr>outside := w\<rparr>, nm), name), dq)"
    by (simp add: skipped_step)
  assume s: "namespaceOf dq' = namespaceOf dq \<and> metricNameOf dq' \<noteq> []"
  with h have "reachesFetch cfg (su\<lparr>outside := w\<rparr>) dq'" by (simp add: reachesFetch_def)
  from reachesFetch_lookups [OF this, of a' r' nm' name'] s
  show "lookups (newEvents w
          (outside (stateAfter (enhanceDataPoint cfg a' r' ((su\<lparr>outside := w\<rparr>, nm'), name') dq'))))
        = [namespaceOf dq]" by simp
next
  assume h: "reachesFetch cfg su dq"
  then show "lookups (newEvents (outside su)
      (outside (stateAfter (enhanceDataPoint cfg a r ((su, nm), name) dq)))) = [namespaceOf dq]"
    by (rule reachesFetch_lookups)
  assume "\<not> cfgFileCacheEnabled cfg \<and> cfgRegion cfg \<noteq> None"
  with h show "fetches (newEvents (outside su)
      (outside (stateAfter (enhanceDataPoint cfg a r ((su, nm), name) dq)))) = [namespaceOf dq]"
    by (auto intro: reachesFetch_fetches)
next
  assume "resourceCache su ns' = None \<and> namespaceOf dq \<noteq> ns'"
  then show "resourceCache (stateAfter (enhanceDataPoint cfg a r ((su, nm), name) dq)) ns' = None"
    by (simp add: absent_stays)
qed

theorem resourceCache_entries_witness:
  "resourceCache rdsKnown ''AWS/RDS'' = Some []
   \<and> resourceCache (fst (snd (enhanceRequests (exampleConfig False failingEnv) rdsKnown exampleBatch)))
       ''AWS/RDS'' = Some []
   \<and> quietFor ''AWS/RDS'' (newEvents (outside rdsKnown)
       (outside (fst (snd (enhanceRequests (exampleConfig False failingEnv) rdsKnown exampleBatch)))))
   \<and> reachesFetch (exampleConfig False failingEnv) rdsKnown (summaryPoint ''AWS/EC2'')
   \<and> fetchFor (exampleConfig False failingEnv) ''AWS/EC2'' rdsKnown
       = (Inl (LibError ''throttled''),
          \<lparr>files = Map.empty, trace = [EvLookup ''AWS/EC2'', EvFetch ''AWS/EC2'' ''eu-west-1'']\<rparr>)
   \<and> skippedFailure (exampleConfig False failingEnv) (LibError ''throttled'')
   \<and> enhanceDataPoint (exampleConfig False failingEnv) [] [] ((rdsKnown, []), ''cpu'')
         (summaryPoint ''AWS/EC2'')
       = (None,
          ((rdsKnown\<lparr>outside :=
              \<lparr>files = Map.empty, trace = [EvLookup ''AWS/EC2'', EvFetch ''AWS/EC2'' ''eu-west-1'']\<rparr>\<rparr>,
            []), ''cpu''),
          summaryPoint ''AWS/EC2'')
   \<and> lookups (newEvents
         \<lparr>files = Map.empty, trace = [EvLookup ''AWS/EC2'', EvFetch ''AWS/EC2'' ''eu-west-1'']\<rparr>
         (outside (stateAfter (enhanceDataPoint (exampleConfig False failingEnv) [] []
            ((rdsKnown\<lparr>outside :=
                \<lparr>files = Map.empty, trace = [EvLookup ''AWS/EC2'', EvFetch ''AWS/EC2'' ''eu-west-1'']\<rparr>\<rparr>,
              []), ''cpu'')
            (summaryPoint ''AWS/EC2'')))))
       = [''AWS/EC2'']
   \<and> fetches (newEvents (outside rdsKnown)
         (outside (stateAfter (enhanceDataPoint (exampleConfig False failingEnv) [] []
            ((rdsKnown, []), ''cpu'') (summaryPoint ''AWS/EC2'')))))
       = [''AWS/EC2'']
   \<and> resourceCache (stateAfter (enhanceDataPoint (exampleConfig False failingEnv) [] []
         ((rdsKnown, []), ''cpu'') (summaryPoint ''AWS/EC2''))) ''AWS/Lambda'' = None
   \<and> trace (outside (fst (snd (enhanceRequests (exampleConfig False failingEnv) rdsKnown exampleBatch))))
       = [EvLookup ''AWS/EC2'', EvFetch ''AWS/EC2'' ''eu-west-1'',
          EvLookup ''AWS/EC2'', EvFetch ''AWS/EC2'' ''eu-west-1'']"
proof -
  let ?cfg = "exampleConfig False failingEnv"
  let ?w = "\<lparr>files = Map.empty, trace = [EvLookup ''AWS/EC2'', EvFetch ''AWS/EC2'' ''eu-west-1'']\<rparr>"
  let ?dq = "summaryPoint ''AWS/EC2''"
  have present: "resourceCache rdsKnown ''AWS/RDS'' = Some []" by (simp add: rdsKnown_def)
  have failure: "reachesFetch ?cfg rdsKnown ?dq
      \<and> fetchFor ?cfg (namespaceOf ?dq) rdsKnown = (Inl (LibError ''throttled''), ?w)
      \<and> skippedFailure ?cfg (LibError ''throttled'')"
    using reaches failing_fetch skipped by simp
  have again: "namespaceOf ?dq = namespaceOf ?dq \<and> metricNameOf ?dq \<noteq> []" by simp
  have off: "\<not> cfgFileCacheEnabled ?cfg \<and> cfgRegion ?cfg \<noteq> None" by (simp add: exampleConfig_def)
  have absent: "resourceCache rdsKnown ''AWS/Lambda'' = None \<and> namespaceOf ?dq \<noteq> ''AWS/Lambda''"
    by (simp add: rdsKnown_def)
  note t = resourceCache_entries [where cfg = ?cfg and st = rdsKnown and ns = "''AWS/RDS''"
      and rs = "[]" and reqs = exampleBatch and dp = "summaryPoint ''AWS/RDS''" and su = rdsKnown and dq = ?dq and dq' = ?dq
      and err = "LibError ''throttled''" and w = ?w and ns' = "''AWS/Lambda''"
      and a = "[]" and r = "[]" and nm = "[]" and name = "''cpu''"
      and a' = "[]" and r' = "[]" and nm' = "[]" and name' = "''cpu''"]
  from t present have c1:
    "resourceCache (fst (snd (enhanceRequests ?cfg rdsKnown exampleBatch))) ''AWS/RDS'' = Some []"
    "quietFor ''AWS/RDS'' (newEvents (outside rdsKnown)
       (outside (fst (snd (enhanceRequests ?cfg rdsKnown exampleBatch)))))"
    by blast+
  from t failure have c2:
    "enhanceDataPoint ?cfg [] [] ((rdsKnown, []), ''cpu'') ?dq
       = (None, ((rdsKnown\<lparr>outside := ?w\<rparr>, []), ''cpu''), ?dq)"
    by blast
  from t failure again have
    "lookups (newEvents ?w (outside (stateAfter (enhanceDataPoint ?cfg [] []
        ((rdsKnown\<lparr>outside := ?w\<rparr>, []), ''cpu'') ?dq)))) = [namespaceOf ?dq]"
    by blast
  then have c3:
    "lookups (newEvents ?w (outside (stateAfter (enhanceDataPoint ?cfg [] []
        ((rdsKnown\<lparr>outside := ?w\<rparr>, []), ''cpu'') ?dq)))) = [''AWS/EC2'']"
    by (simp only: summaryPoint_names)
  from t failure off have
    "fetches (newEvents (outside rdsKnown) (outside (stateAfter (enhanceDataPoint ?cfg [] []
        ((rdsKnown, []), ''cpu'') ?dq)))) = [namespaceOf ?dq]"
    by blast
  then have c4:
    "fetches (newEvents (outside rdsKnown) (outside (stateAfter (enhanceDataPoint ?cfg [] []
        ((rdsKnown, []), ''cpu'') ?dq)))) = [''AWS/EC2'']"
    by (simp only: summaryPoint_names)
  from t absent have c5:
    "resourceCache (stateAfter (enhanceDataPoint ?cfg [] [] ((rdsKnown, []), ''cpu'') ?dq))
       ''AWS/Lambda'' = None"
    by blast
  show ?thesis
    by (intro conjI) (rule present c1 reaches failing_fetch skipped c2 c3 c4 c5 run_trace)+
qed

end
